theory Spec2Isabelle
  imports Complex_Main
begin

section \<open>JavaScript numbers\<close>

text \<open>
  The dashboard (\<^verbatim>\<open>App.jsx\<close>, \<^verbatim>\<open>DisasterHeatmap.jsx\<close>) computes on JavaScript numbers,
  that is IEEE-754 binary64 values. A finite double is carried by the rational it denotes
  (\<open>Fin\<close>); the two zeros are identified, which no operation used by the dashboard can
  tell apart (\<open>toFixed\<close> prints both as \<open>0.000\<close>, and the dashboard never divides by a
  number that can be zero). Every arithmetic operation computes the exact result and
  rounds it to the nearest double, ties to even, as the hardware does.
\<close>

datatype jsnum = NaN | PInf | NInf | Fin rat

fun log2f :: "nat \<Rightarrow> nat" where
  "log2f n = (if n < 2 then 0 else Suc (log2f (n div 2)))"

declare log2f.simps [simp del]

definition pow2 :: "int \<Rightarrow> rat" where
  "pow2 e = (if 0 \<le> e then 2 ^ nat e else 1 / 2 ^ nat (- e))"

text \<open>The binary exponent of a non-zero rational: \<open>2^e \<le> |x| < 2^(e+1)\<close>.\<close>

definition binexp :: "rat \<Rightarrow> int" where
  "binexp x = (if 1 \<le> \<bar>x\<bar> then int (log2f (nat \<lfloor>\<bar>x\<bar>\<rfloor>))
               else - int (Suc (log2f (nat (\<lceil>1 / \<bar>x\<bar>\<rceil> - 1)))))"

text \<open>Rounding to the nearest integer, ties to the even one.\<close>

definition rne :: "rat \<Rightarrow> int" where
  "rne y = (let f = \<lfloor>y\<rfloor>; d = y - of_int f in
      if d < 1 / 2 then f else if 1 / 2 < d then f + 1 else if even f then f else f + 1)"

text \<open>
  Rounding to binary64 with an unbounded exponent range above: 53 significant bits,
  and multiples of \<open>2^-1074\<close> in the subnormal range.
\<close>

definition rnd :: "rat \<Rightarrow> rat" where
  "rnd x = (if x = 0 then 0 else
     let e = max (binexp x - 52) (- 1074) in of_int (rne (x / pow2 e)) * pow2 e)"

text \<open>A result whose rounded magnitude reaches \<open>2^1024\<close> overflows to an infinity.\<close>

definition round64 :: "rat \<Rightarrow> jsnum" where
  "round64 x = (let r = rnd x in
     if 2 ^ 1024 \<le> r then PInf else if r \<le> - (2 ^ 1024) then NInf else Fin r)"

text \<open>The rationals that are finite doubles, and the JavaScript numbers built from them.\<close>

definition is_double :: "rat \<Rightarrow> bool" where
  "is_double x \<longleftrightarrow> rnd x = x \<and> \<bar>x\<bar> < 2 ^ 1024"

fun is_number :: "jsnum \<Rightarrow> bool" where
  "is_number (Fin x) = is_double x"
| "is_number _ = True"

text \<open>The operators \<^verbatim>\<open>a + b\<close>, \<^verbatim>\<open>a - b\<close> and \<^verbatim>\<open>Math.max(a, b)\<close> on numbers.\<close>

fun js_neg :: "jsnum \<Rightarrow> jsnum" where
  "js_neg NaN = NaN"
| "js_neg PInf = NInf"
| "js_neg NInf = PInf"
| "js_neg (Fin x) = Fin (- x)"

fun js_add :: "jsnum \<Rightarrow> jsnum \<Rightarrow> jsnum" where
  "js_add NaN _ = NaN"
| "js_add _ NaN = NaN"
| "js_add PInf NInf = NaN"
| "js_add NInf PInf = NaN"
| "js_add PInf _ = PInf"
| "js_add _ PInf = PInf"
| "js_add NInf _ = NInf"
| "js_add _ NInf = NInf"
| "js_add (Fin x) (Fin y) = round64 (x + y)"

definition js_sub :: "jsnum \<Rightarrow> jsnum \<Rightarrow> jsnum" where
  "js_sub a b = js_add a (js_neg b)"

fun js_max :: "jsnum \<Rightarrow> jsnum \<Rightarrow> jsnum" where
  "js_max NaN _ = NaN"
| "js_max _ NaN = NaN"
| "js_max PInf _ = PInf"
| "js_max _ PInf = PInf"
| "js_max NInf b = b"
| "js_max a NInf = a"
| "js_max (Fin x) (Fin y) = Fin (max x y)"

text \<open>
  \<^verbatim>\<open>total / count\<close> where \<open>count\<close> is a non-negative integer counter. The counter is a
  natural number here; as a double it is exact below \<open>2^53\<close>, far above the length an
  array can have.
\<close>

fun js_div_count :: "jsnum \<Rightarrow> nat \<Rightarrow> jsnum" where
  "js_div_count NaN n = NaN"
| "js_div_count PInf n = PInf"
| "js_div_count NInf n = NInf"
| "js_div_count (Fin x) n =
     (if n = 0 then (if x = 0 then NaN else if 0 < x then PInf else NInf)
      else round64 (x / of_nat n))"

text \<open>The literal \<open>q\<close> of the source text denotes the double nearest to \<open>q\<close>.\<close>

definition lit :: "rat \<Rightarrow> jsnum" where
  "lit q = round64 q"

text \<open>
  \<^verbatim>\<open>a * b\<close>: the product of an infinity and a finite number has the sign of the two
  factors, and is \<^verbatim>\<open>NaN\<close> when the finite one is zero.
\<close>

fun js_sgn :: "jsnum \<Rightarrow> int" where
  "js_sgn PInf = 1"
| "js_sgn NInf = - 1"
| "js_sgn (Fin x) = (if x = 0 then 0 else if 0 < x then 1 else - 1)"
| "js_sgn NaN = 0"

fun js_mul :: "jsnum \<Rightarrow> jsnum \<Rightarrow> jsnum" where
  "js_mul NaN _ = NaN"
| "js_mul _ NaN = NaN"
| "js_mul (Fin x) (Fin y) = round64 (x * y)"
| "js_mul a b = (let s = js_sgn a * js_sgn b in
     if s = 0 then NaN else if 0 < s then PInf else NInf)"

text \<open>
  A property of an alert that holds a number when it is there. The alerts come out of
  \<^verbatim>\<open>response.json()\<close>, where such a property can also be absent (reading it gives
  \<^verbatim>\<open>undefined\<close>) or \<^verbatim>\<open>null\<close>.
\<close>

datatype jsval = Undefined | Null | Num jsnum

text \<open>
  Reading such a property in arithmetic (\<^verbatim>\<open>total += x\<close>, \<^verbatim>\<open>Math.max(m, x)\<close>): \<^verbatim>\<open>undefined\<close>
  converts to \<^verbatim>\<open>NaN\<close> and \<^verbatim>\<open>null\<close> to \<open>0\<close>. The guard \<^verbatim>\<open>x || 0\<close> replaces every falsy
  value, which here means \<^verbatim>\<open>undefined\<close>, \<^verbatim>\<open>null\<close>, \<^verbatim>\<open>NaN\<close> and zero, by \<open>0\<close>.
\<close>

fun to_number :: "jsval \<Rightarrow> jsnum" where
  "to_number Undefined = NaN"
| "to_number Null = Fin 0"
| "to_number (Num v) = v"

fun or_zero :: "jsval \<Rightarrow> jsnum" where
  "or_zero Undefined = Fin 0"
| "or_zero Null = Fin 0"
| "or_zero (Num NaN) = Fin 0"
| "or_zero (Num v) = v"

text \<open>The order of numbers as \<^verbatim>\<open><=\<close> has it (false whenever a \<^verbatim>\<open>NaN\<close> is compared).\<close>

fun js_le :: "jsnum \<Rightarrow> jsnum \<Rightarrow> bool" where
  "js_le NaN _ = False"
| "js_le _ NaN = False"
| "js_le NInf _ = True"
| "js_le _ PInf = True"
| "js_le PInf _ = False"
| "js_le _ NInf = False"
| "js_le (Fin x) (Fin y) = (x \<le> y)"

subsection \<open>Number.prototype.toFixed\<close>

text \<open>
  \<^verbatim>\<open>x.toFixed(f)\<close> prints a finite \<open>x\<close> of magnitude below \<open>10^21\<close> as a sign (\<^verbatim>\<open>-\<close>
  exactly when \<open>x < 0\<close>) followed by the decimal digits of the integer \<open>n\<close> nearest to
  \<open>|x| * 10^f\<close> (the larger one on a tie), with a point before the last \<open>f\<close> digits.
  Every other number is printed as \<^verbatim>\<open>String(x)\<close> does, which is a different string for
  each number and never has that shape. The printed string is kept in parsed form:
  \<open>Dec negative n\<close> for the first shape, \<open>Lit x\<close> for the second; two numbers print the
  same string exactly when their parsed forms are equal.
\<close>

datatype fixed = Dec bool nat | Lit jsnum

fun toFixed :: "nat \<Rightarrow> jsnum \<Rightarrow> fixed" where
  "toFixed f (Fin x) =
     (if \<bar>x\<bar> < 10 ^ 21 then Dec (x < 0) (nat \<lfloor>\<bar>x\<bar> * 10 ^ f + 1 / 2\<rfloor>) else Lit (Fin x))"
| "toFixed f v = Lit v"

section \<open>Alerts\<close>

text \<open>
  An alert ("tweet") as the dashboard receives it from \<^verbatim>\<open>/tweets/live\<close> or builds it in
  \<^verbatim>\<open>getMockTweets\<close>. A field the code reads behind a guard (\<^verbatim>\<open>tweet.id || ...\<close>,
  \<^verbatim>\<open>tweet.priority_score || 0\<close>, \<^verbatim>\<open>if (!tweet.coordinates)\<close>, \<^verbatim>\<open>tweet.created_at ? ...\<close>)
  may be absent, which is \<open>None\<close> (\<open>Undefined\<close> for a numeric property, which may also be
  \<open>Null\<close>). Times are milliseconds since the epoch. The fields
  \<^verbatim>\<open>id\<close>, \<^verbatim>\<open>text\<close> and \<^verbatim>\<open>priority_factors\<close> are \<open>tweet_id\<close>, \<open>tweet_text\<close> and \<open>factors\<close>
  here.
\<close>

record priority_factors =
  base_confidence :: jsnum
  keyword_boost :: jsnum
  location_boost :: jsnum
  urgency_boost :: jsnum
  factors_geolocation_confidence :: jsnum

record tweet =
  tweet_id :: "string option"
  tweet_text :: string
  is_disaster :: bool
  confidence :: jsval
  priority_score :: jsval
  coordinates :: "(jsnum \<times> jsnum) option"
  geolocation_confidence :: jsval
  factors :: "priority_factors option"
  created_at :: "string option"
  timestamp :: "int option"
  simulation :: bool

section \<open>The clustering operation: useHeatmapData\<close>

text \<open>
  \<^verbatim>\<open>locationGroups\<close> is a plain object used as a dictionary from the key string to the
  group. \<^verbatim>\<open>Object.values\<close> lists the groups in the order in which their keys were first
  inserted (no key is an array index: each contains a comma), so the dictionary is an
  association list in insertion order with distinct keys. The key
  \<^verbatim>\<open>`${lat.toFixed(3)},${lon.toFixed(3)}`\<close> joins two printed numbers, neither of which has
  a comma, and is kept as the pair of the two.
\<close>

type_synonym key = "fixed \<times> fixed"

record location_group =
  group_coordinates :: "jsnum \<times> jsnum"
  group_tweets :: "tweet list"
  totalPriority :: jsnum
  maxPriority :: jsnum
  count :: nat

record cluster = location_group +
  avgPriority :: jsnum
  intensity :: jsnum

definition key_of :: "jsnum \<times> jsnum \<Rightarrow> key" where
  "key_of c = (toFixed 3 (fst c), toFixed 3 (snd c))"

definition new_group :: "jsnum \<times> jsnum \<Rightarrow> location_group" where
  "new_group c = \<lparr>group_coordinates = c, group_tweets = [], totalPriority = Fin 0,
     maxPriority = Fin 0, count = 0\<rparr>"

definition push_tweet :: "tweet \<Rightarrow> location_group \<Rightarrow> location_group" where
  "push_tweet t g = g\<lparr>group_tweets := group_tweets g @ [t],
     totalPriority := js_add (totalPriority g) (to_number (priority_score t)),
     maxPriority := js_max (maxPriority g) (to_number (priority_score t)),
     count := count g + 1\<rparr>"

fun modify :: "'k \<Rightarrow> ('v \<Rightarrow> 'v) \<Rightarrow> ('k \<times> 'v) list \<Rightarrow> ('k \<times> 'v) list" where
  "modify k f [] = []"
| "modify k f ((k', v) # kvs) =
     (if k' = k then (k', f v) # kvs else (k', v) # modify k f kvs)"

text \<open>The body of \<^verbatim>\<open>tweets.forEach\<close>.\<close>

definition add_tweet :: "(key \<times> location_group) list \<Rightarrow> tweet \<Rightarrow> (key \<times> location_group) list" where
  "add_tweet groups t =
     (case coordinates t of
        None \<Rightarrow> groups
      | Some c \<Rightarrow>
          let k = key_of c;
              groups1 = (if map_of groups k = None then groups @ [(k, new_group c)] else groups)
          in modify k (push_tweet t) groups1)"

definition locationGroups :: "tweet list \<Rightarrow> (key \<times> location_group) list" where
  "locationGroups tweets = foldl add_tweet [] tweets"

definition finish :: "location_group \<Rightarrow> cluster" where
  "finish g = location_group.extend g
     \<lparr>avgPriority = js_div_count (totalPriority g) (count g), intensity = maxPriority g\<rparr>"

text \<open>The function inside \<^verbatim>\<open>React.useMemo\<close>.\<close>

definition heatmapData :: "tweet list \<Rightarrow> cluster list" where
  "heatmapData tweets =
     (if tweets = [] then [] else map finish (map snd (locationGroups tweets)))"

text \<open>
  The hook itself. \<^verbatim>\<open>React.useMemo(f, [tweets])\<close> keeps the dependency and the value of the
  last computation in a memo cell of the component. It returns the kept value when the
  dependency is the one kept and computes afresh otherwise. Dependencies are compared
  with \<^verbatim>\<open>Object.is\<close>: an array is the one kept when it is the same object, whatever it
  holds by now. So the arrays of alerts live in a store, the hook is handed a reference
  into it (or no array at all, for which \<^verbatim>\<open>!tweets\<close> returns the empty list), and the memo
  cell keeps the reference.
\<close>

type_synonym ref = nat

type_synonym store = "ref \<Rightarrow> tweet list"

type_synonym memo_cell = "(ref option \<times> cluster list) option"

definition useHeatmapData :: "store \<Rightarrow> memo_cell \<Rightarrow> ref option \<Rightarrow> cluster list \<times> memo_cell" where
  "useHeatmapData arrays cell tweets =
     (let computed = (case tweets of None \<Rightarrow> [] | Some r \<Rightarrow> heatmapData (arrays r)) in
      case cell of
        Some (deps, v) \<Rightarrow>
          if deps = tweets then (v, cell) else (computed, Some (tweets, computed))
      | None \<Rightarrow> (computed, Some (tweets, computed)))"

text \<open>
  The part of the page the hook lives in. \<^verbatim>\<open>App\<close> holds the alerts in the state variable
  \<^verbatim>\<open>tweets\<close>, which starts as a new empty array (\<^verbatim>\<open>useState([])\<close>) and is replaced only by
  \<^verbatim>\<open>setTweets\<close>, called by \<^verbatim>\<open>loadTweets\<close> on an array it has just built (the result of
  \<^verbatim>\<open>.map\<close>, or of \<^verbatim>\<open>getMockTweets()\<close>). Every rendering passes the array of the state
  variable to \<^verbatim>\<open>DisasterHeatmap\<close>, which calls the hook on it. No code of the page writes
  into an array held by the state variable.
\<close>

record page =
  arrays :: store
  unused :: ref
  tweets_state :: ref
  memo :: memo_cell

definition initial_page :: page where
  "initial_page = \<lparr>arrays = (\<lambda>r. []), unused = 1, tweets_state = 0, memo = None\<rparr>"

definition setTweets :: "tweet list \<Rightarrow> page \<Rightarrow> page" where
  "setTweets built p =
     p\<lparr>arrays := (arrays p)(unused p := built), tweets_state := unused p,
       unused := Suc (unused p)\<rparr>"

definition render :: "page \<Rightarrow> cluster list \<times> page" where
  "render p =
     (let (v, cell) = useHeatmapData (arrays p) (memo p) (Some (tweets_state p))
      in (v, p\<lparr>memo := cell\<rparr>))"

datatype event = Set_tweets "tweet list" | Render

fun step :: "page \<Rightarrow> event \<Rightarrow> page" where
  "step p (Set_tweets built) = setTweets built p"
| "step p Render = snd (render p)"

text \<open>The page after the events of \<open>es\<close>, from the first mounting on.\<close>

definition page_after :: "event list \<Rightarrow> page" where
  "page_after es = foldl step initial_page es"

text \<open>The alerts the state variable \<^verbatim>\<open>tweets\<close> holds.\<close>

definition tweets_of :: "page \<Rightarrow> tweet list" where
  "tweets_of p = arrays p (tweets_state p)"

text \<open>
  The clusters described without the loop: the keys in the order of their first
  occurrence, and for each key the alerts that carry it, in input order, with the
  statistics accumulated over them from the initial values of a new group.
\<close>

definition tkey :: "tweet \<Rightarrow> key option" where
  "tkey t = map_option key_of (coordinates t)"

definition members :: "key \<Rightarrow> tweet list \<Rightarrow> tweet list" where
  "members k ts = filter (\<lambda>t. tkey t = Some k) ts"

definition first_keys :: "tweet list \<Rightarrow> key list" where
  "first_keys ts = rev (remdups (rev (List.map_filter tkey ts)))"

definition scores :: "tweet list \<Rightarrow> jsnum list" where
  "scores ms = map (\<lambda>t. to_number (priority_score t)) ms"

definition summarize :: "tweet list \<Rightarrow> location_group" where
  "summarize ms = \<lparr>group_coordinates = the (coordinates (hd ms)), group_tweets = ms,
     totalPriority = foldl js_add (Fin 0) (scores ms),
     maxPriority = foldl js_max (Fin 0) (scores ms), count = length ms\<rparr>"

text \<open>
  Modelled from the spec: "two alerts fall in the same cluster iff their resolved
  coordinates round identically at that precision". The number \<open>x\<close> rounded at \<open>f\<close>
  decimal places, a half going away from zero as \<^verbatim>\<open>toFixed\<close> rounds the magnitude.
\<close>

definition round_places :: "nat \<Rightarrow> rat \<Rightarrow> rat" where
  "round_places f x = sgn x * of_int \<lfloor>\<bar>x\<bar> * 10 ^ f + 1 / 2\<rfloor> / 10 ^ f"

section \<open>The alert feed rendered by App\<close>

datatype level = CRITICAL | HIGH | MEDIUM | LOW

definition getPriorityLevel :: "jsnum \<Rightarrow> level \<times> string" where
  "getPriorityLevel score =
     (if js_le (lit (9 / 10)) score then (CRITICAL, ''bg-red-500'')
      else if js_le (lit (7 / 10)) score then (HIGH, ''bg-orange-500'')
      else if js_le (lit (5 / 10)) score then (MEDIUM, ''bg-yellow-500'')
      else (LOW, ''bg-green-500''))"

text \<open>
  \<^verbatim>\<open>getTimeAgo\<close>: the age in whole seconds, printed in the largest fitting unit. A missing
  or invalid time makes every comparison false and prints \<^verbatim>\<open>NaNd ago\<close>.
\<close>

datatype time_ago = Seconds_ago int | Minutes_ago int | Hours_ago int | Days_ago int | NaN_days_ago

definition getTimeAgo :: "int \<Rightarrow> int option \<Rightarrow> time_ago" where
  "getTimeAgo now ts =
     (case ts of
        None \<Rightarrow> NaN_days_ago
      | Some t \<Rightarrow>
          let diff = (now - t) div 1000 in
          if diff < 60 then Seconds_ago diff
          else if diff < 3600 then Minutes_ago (diff div 60)
          else if diff < 86400 then Hours_ago (diff div 3600)
          else Days_ago (diff div 86400))"

text \<open>One card of the list "High Priority Alerts": what \<^verbatim>\<open>tweets.map\<close> renders for an alert.\<close>

record alert_card =
  card_key :: "string option"
  card_selected :: bool
  card_level :: "level \<times> string"
  card_time :: time_ago
  card_sim :: bool
  card_text :: string
  card_confidence :: fixed
  card_priority :: fixed
  card_location :: "(fixed \<times> fixed) option"

definition alert_card :: "int \<Rightarrow> nat option \<Rightarrow> nat \<Rightarrow> tweet \<Rightarrow> alert_card" where
  "alert_card now selectedTweet index t =
     \<lparr>card_key = tweet_id t,
      card_selected = (selectedTweet = Some index),
      card_level = getPriorityLevel (or_zero (priority_score t)),
      card_time = getTimeAgo now (timestamp t),
      card_sim = simulation t,
      card_text = tweet_text t,
      card_confidence = toFixed 1 (js_mul (or_zero (confidence t)) (Fin 100)),
      card_priority = toFixed 1 (js_mul (or_zero (priority_score t)) (Fin 100)),
      card_location = map_option (\<lambda>c. (toFixed 4 (fst c), toFixed 4 (snd c))) (coordinates t)\<rparr>"

definition alert_feed :: "int \<Rightarrow> nat option \<Rightarrow> tweet list \<Rightarrow> alert_card list" where
  "alert_feed now selectedTweet tweets =
     map (\<lambda>(index, t). alert_card now selectedTweet index t) (enumerate 0 tweets)"

section \<open>The dashboard state and loadTweets\<close>

text \<open>
  The fallback list of \<^verbatim>\<open>getMockTweets\<close>. \<open>now\<close> is the reading of \<^verbatim>\<open>Date.now()\<close> when the
  list is built.
\<close>

definition getMockTweets :: "int \<Rightarrow> tweet list" where
  "getMockTweets now =
    [\<lparr>tweet_id = Some ''mock_1'',
      tweet_text = ''URGENT: Major earthquake hits downtown area, buildings collapsing!'',
      is_disaster = True,
      confidence = Num (lit (911 / 1000)),
      priority_score = Num (lit 1),
      coordinates = Some (lit (377749 / 10000), js_neg (lit (1224194 / 10000))),
      geolocation_confidence = Num (lit (9 / 10)),
      factors = Some \<lparr>base_confidence = lit (911 / 1000), keyword_boost = lit 0,
        location_boost = lit (2 / 10), urgency_boost = lit (3 / 10),
        factors_geolocation_confidence = lit (9 / 10)\<rparr>,
      created_at = None,
      timestamp = Some (now - 60000),
      simulation = True\<rparr>,
     \<lparr>tweet_id = Some ''mock_2'',
      tweet_text = ''Wildfire spreading rapidly near residential areas, evacuations ordered'',
      is_disaster = True,
      confidence = Num (lit (809 / 1000)),
      priority_score = Num (lit 1),
      coordinates = Some (lit (340522 / 10000), js_neg (lit (1182437 / 10000))),
      geolocation_confidence = Num (lit (9 / 10)),
      factors = Some \<lparr>base_confidence = lit (809 / 1000), keyword_boost = lit (1 / 10),
        location_boost = lit (2 / 10), urgency_boost = lit (15 / 100),
        factors_geolocation_confidence = lit (9 / 10)\<rparr>,
      created_at = None,
      timestamp = Some (now - 120000),
      simulation = True\<rparr>,
     \<lparr>tweet_id = Some ''mock_3'',
      tweet_text = ''Flash flood warning issued, water levels rising quickly'',
      is_disaster = True,
      confidence = Num (lit (840 / 1000)),
      priority_score = Num (lit 1),
      coordinates = Some (lit (297604 / 10000), js_neg (lit (953698 / 10000))),
      geolocation_confidence = Num (lit (9 / 10)),
      factors = Some \<lparr>base_confidence = lit (840 / 1000), keyword_boost = lit (1 / 10),
        location_boost = lit (2 / 10), urgency_boost = lit (15 / 100),
        factors_geolocation_confidence = lit (9 / 10)\<rparr>,
      created_at = None,
      timestamp = Some (now - 180000),
      simulation = True\<rparr>,
     \<lparr>tweet_id = Some ''mock_4'',
      tweet_text = ''Tornado spotted moving towards city center'',
      is_disaster = True,
      confidence = Num (lit (755 / 1000)),
      priority_score = Num (lit 1),
      coordinates = Some (lit (355653 / 10000), js_neg (lit (969289 / 10000))),
      geolocation_confidence = Num (lit (9 / 10)),
      factors = Some \<lparr>base_confidence = lit (755 / 1000), keyword_boost = lit 0,
        location_boost = lit (2 / 10), urgency_boost = lit (15 / 100),
        factors_geolocation_confidence = lit (9 / 10)\<rparr>,
      created_at = None,
      timestamp = Some (now - 240000),
      simulation = True\<rparr>,
     \<lparr>tweet_id = Some ''mock_5'',
      tweet_text = ''Building explosion reported, emergency services responding'',
      is_disaster = True,
      confidence = Num (lit (698 / 1000)),
      priority_score = Num (lit 1),
      coordinates = Some (lit (407128 / 10000), js_neg (lit (740060 / 10000))),
      geolocation_confidence = Num (lit (9 / 10)),
      factors = Some \<lparr>base_confidence = lit (698 / 1000), keyword_boost = lit (1 / 10),
        location_boost = lit (2 / 10), urgency_boost = lit (15 / 100),
        factors_geolocation_confidence = lit (9 / 10)\<rparr>,
      created_at = None,
      timestamp = Some (now - 300000),
      simulation = True\<rparr>]"

text \<open>
  What a \<^verbatim>\<open>fetch\<close> inside \<^verbatim>\<open>try\<close> can come to: the request or the decoding of the body
  throws, the response is not \<^verbatim>\<open>ok\<close> (with its status), or it is \<^verbatim>\<open>ok\<close> with a body.
\<close>

datatype 'a response = Throws | Not_ok nat | Ok 'a

record health_body =
  health_streaming_active :: "bool option"

record live_body =
  streaming_active :: "bool option"
  live_tweets :: "tweet list option"

text \<open>
  Everything outside the component that one run of \<^verbatim>\<open>loadTweets\<close> reads: the three
  responses, the clock, the time \<^verbatim>\<open>new Date(created_at)\<close> parses to (\<open>None\<close> for an invalid
  date), and the time \<^verbatim>\<open>Date.now() - Math.random() * 3600000\<close> drawn for the alert at
  each index.
\<close>

record environment =
  health_response :: "health_body response"
  start_response :: "unit response"
  live_response :: "live_body response"
  clock :: int
  parse_date :: "string \<Rightarrow> int option"
  random_recent :: "nat \<Rightarrow> int"

datatype api_status = Checking | Online | Offline

record app_state =
  st_tweets :: "tweet list"
  st_selectedTweet :: "nat option"
  st_loading :: bool
  st_lastUpdate :: int
  st_streamingActive :: bool
  st_apiStatus :: api_status

definition or_false :: "bool option \<Rightarrow> bool" where
  "or_false b = (case b of None \<Rightarrow> False | Some v \<Rightarrow> v)"

definition fetchLiveTweets :: "environment \<Rightarrow> app_state \<Rightarrow> tweet list \<times> app_state" where
  "fetchLiveTweets env st =
     (case live_response env of
        Ok data \<Rightarrow>
          (case live_tweets data of None \<Rightarrow> [] | Some ts \<Rightarrow> ts,
           st\<lparr>st_streamingActive := or_false (streaming_active data)\<rparr>)
      | Not_ok status \<Rightarrow> ([], st)
      | Throws \<Rightarrow> ([], st))"

definition startStreaming :: "environment \<Rightarrow> app_state \<Rightarrow> app_state" where
  "startStreaming env st =
     (case start_response env of
        Ok _ \<Rightarrow> st\<lparr>st_streamingActive := True\<rparr>
      | Not_ok status \<Rightarrow> st
      | Throws \<Rightarrow> st)"

definition checkApiStatus :: "environment \<Rightarrow> app_state \<Rightarrow> bool \<times> app_state" where
  "checkApiStatus env st =
     (case health_response env of
        Ok health \<Rightarrow>
          (True, st\<lparr>st_apiStatus := Online,
                   st_streamingActive := or_false (health_streaming_active health)\<rparr>)
      | Not_ok status \<Rightarrow> (False, st\<lparr>st_apiStatus := Offline\<rparr>)
      | Throws \<Rightarrow> (False, st\<lparr>st_apiStatus := Offline\<rparr>))"

text \<open>
  \<^verbatim>\<open>Array.prototype.sort(comparefn)\<close> is stable, places \<open>a\<close> after \<open>b\<close> only when
  \<^verbatim>\<open>comparefn(a, b) > 0\<close>, and treats a \<^verbatim>\<open>NaN\<close> from the comparison as \<open>0\<close>. Which algorithm
  an engine runs is its own choice; for a comparison that orders the elements
  consistently the result is the same for all of them, and it is the result of this
  insertion sort.
\<close>

fun js_pos :: "jsnum \<Rightarrow> bool" where
  "js_pos PInf = True"
| "js_pos (Fin x) = (0 < x)"
| "js_pos _ = False"

fun insert_sorted :: "('a \<Rightarrow> 'a \<Rightarrow> jsnum) \<Rightarrow> 'a \<Rightarrow> 'a list \<Rightarrow> 'a list" where
  "insert_sorted comparefn a [] = [a]"
| "insert_sorted comparefn a (b # bs) =
     (if js_pos (comparefn a b) then b # insert_sorted comparefn a bs else a # b # bs)"

definition js_sort :: "('a \<Rightarrow> 'a \<Rightarrow> jsnum) \<Rightarrow> 'a list \<Rightarrow> 'a list" where
  "js_sort comparefn xs = foldr (insert_sorted comparefn) xs []"

definition by_priority :: "tweet \<Rightarrow> tweet \<Rightarrow> jsnum" where
  "by_priority a b = js_sub (or_zero (priority_score b)) (or_zero (priority_score a))"

text \<open>The order of the sorted view: the priority \<^verbatim>\<open>a.priority_score || 0\<close> of the earlier
  alert is not below that of the later one.\<close>

definition descending :: "tweet \<Rightarrow> tweet \<Rightarrow> bool" where
  "descending a b \<longleftrightarrow> js_le (or_zero (priority_score b)) (or_zero (priority_score a))"

fun show_nat :: "nat \<Rightarrow> string" where
  "show_nat n =
     (if n < 10 then [''0123456789'' ! n] else show_nat (n div 10) @ [''0123456789'' ! (n mod 10)])"

declare show_nat.simps [simp del]

text \<open>The callback of \<^verbatim>\<open>.map\<close>: an empty string is falsy, as a missing field is.\<close>

definition with_id_and_timestamp :: "environment \<Rightarrow> nat \<Rightarrow> tweet \<Rightarrow> tweet" where
  "with_id_and_timestamp env index t =
     t\<lparr>tweet_id :=
         (case tweet_id t of
            None \<Rightarrow> Some (''tweet_'' @ show_nat index)
          | Some i \<Rightarrow> if i = [] then Some (''tweet_'' @ show_nat index) else Some i),
       timestamp :=
         (case created_at t of
            None \<Rightarrow> Some (random_recent env index)
          | Some d \<Rightarrow> if d = [] then Some (random_recent env index) else parse_date env d)\<rparr>"

definition sortedTweets :: "environment \<Rightarrow> tweet list \<Rightarrow> tweet list" where
  "sortedTweets env liveTweets =
     map (\<lambda>(index, t). with_id_and_timestamp env index t)
       (enumerate 0 (js_sort by_priority liveTweets))"

text \<open>
  \<^verbatim>\<open>loadTweets\<close>. \<open>streamingActive\<close> is the value the closure captured when the
  component rendered; the calls to \<^verbatim>\<open>setStreamingActive\<close> during the run do not change it.
\<close>

definition loadTweets :: "environment \<Rightarrow> bool \<Rightarrow> app_state \<Rightarrow> app_state" where
  "loadTweets env streamingActive st =
     (let st1 = st\<lparr>st_loading := True\<rparr>;
          (apiOnline, st2) = checkApiStatus env st1;
          st5 =
            (if apiOnline then
               let st3 = (if \<not> streamingActive then startStreaming env st2 else st2);
                   (liveTweets, st4) = fetchLiveTweets env st3
               in if 0 < length liveTweets
                  then st4\<lparr>st_tweets := sortedTweets env liveTweets\<rparr>
                  else st4\<lparr>st_tweets := getMockTweets (clock env)\<rparr>
             else st2\<lparr>st_tweets := getMockTweets (clock env)\<rparr>)
      in st5\<lparr>st_lastUpdate := clock env, st_loading := False\<rparr>)"

section \<open>The priority scorer\<close>

text \<open>
  Modelled from the spec: the function that computes \<^verbatim>\<open>priority_score\<close> runs in the
  backend, which is not among the sources; the dashboard holds only its results. The
  definitions follow section 4.3: a weighted sum of (a) the classifier confidence, with
  its weight, (b) an urgency bonus added once if the text contains any term of the
  urgency-keyword set, (c) a location bonus, the larger one for a coordinate pair resolved
  with confidence above a threshold and the smaller one for textual location evidence
  only, and (d) a disaster-keyword bonus added once if the text contains any term of the
  keyword set; the sum is then clamped to \<open>[0, 1]\<close>. Weights and keyword sets are
  configuration.
\<close>

record scoring_config =
  urgency_keywords :: "string list"
  disaster_keywords :: "string list"
  confidence_weight :: rat
  urgency_bonus :: rat
  coordinate_bonus :: rat
  location_text_bonus :: rat
  keyword_bonus :: rat
  confidence_threshold :: rat

definition contains_term :: "string \<Rightarrow> string \<Rightarrow> bool" where
  "contains_term txt term =
     list_ex (\<lambda>i. take (length term) (drop i txt) = term) [0..<Suc (length txt)]"

definition contains_any :: "string \<Rightarrow> string list \<Rightarrow> bool" where
  "contains_any txt terms = list_ex (contains_term txt) terms"

definition urgency_term :: "scoring_config \<Rightarrow> string \<Rightarrow> rat" where
  "urgency_term cfg txt = (if contains_any txt (urgency_keywords cfg) then urgency_bonus cfg else 0)"

definition location_term :: "scoring_config \<Rightarrow> bool \<Rightarrow> rat \<Rightarrow> rat" where
  "location_term cfg hasExplicitCoordinate coordinateConfidence =
     (if hasExplicitCoordinate \<and> confidence_threshold cfg < coordinateConfidence
      then coordinate_bonus cfg
      else if 0 < coordinateConfidence then location_text_bonus cfg
      else 0)"

definition keyword_term :: "scoring_config \<Rightarrow> string \<Rightarrow> rat" where
  "keyword_term cfg txt = (if contains_any txt (disaster_keywords cfg) then keyword_bonus cfg else 0)"

definition weighted_sum :: "scoring_config \<Rightarrow> string \<Rightarrow> rat \<Rightarrow> bool \<Rightarrow> rat \<Rightarrow> rat" where
  "weighted_sum cfg txt classifierConfidence hasExplicitCoordinate coordinateConfidence =
     confidence_weight cfg * classifierConfidence + urgency_term cfg txt
       + location_term cfg hasExplicitCoordinate coordinateConfidence + keyword_term cfg txt"

definition clamp01 :: "rat \<Rightarrow> rat" where
  "clamp01 x = max 0 (min 1 x)"

definition score :: "scoring_config \<Rightarrow> string \<Rightarrow> rat \<Rightarrow> bool \<Rightarrow> rat \<Rightarrow> rat" where
  "score cfg txt classifierConfidence hasExplicitCoordinate coordinateConfidence =
     clamp01 (weighted_sum cfg txt classifierConfidence hasExplicitCoordinate coordinateConfidence)"

text \<open>
  Modelled from the spec: the scored alert the pipeline builds from an item (section 3),
  with its confidence and its priority score clamped to \<open>[0, 1]\<close>.
\<close>

record scored_alert =
  alert_text :: string
  alert_confidence :: rat
  alert_priority :: rat

definition scored_alert :: "scoring_config \<Rightarrow> string \<Rightarrow> rat \<Rightarrow> bool \<Rightarrow> rat \<Rightarrow> scored_alert" where
  "scored_alert cfg txt classifierConfidence hasExplicitCoordinate coordinateConfidence =
     \<lparr>alert_text = txt,
      alert_confidence = clamp01 classifierConfidence,
      alert_priority =
        score cfg txt classifierConfidence hasExplicitCoordinate coordinateConfidence\<rparr>"

text \<open>
  What the sources do hold of the scorer: the \<^verbatim>\<open>priority_factors\<close> written into the
  alerts of \<^verbatim>\<open>getMockTweets\<close>, and the documented algorithm of
  \<^verbatim>\<open>FINAL_SYSTEM_DOCUMENTATION.md\<close>: "Urgency Boost: +0.3 for urgent keywords
  ("emergency", "urgent", "help")". The value of a finite number, and the sum of the
  recorded factors of an alert:
\<close>

fun value_of :: "jsnum \<Rightarrow> rat" where
  "value_of (Fin x) = x"
| "value_of _ = 0"

definition factor_sum :: "priority_factors \<Rightarrow> rat" where
  "factor_sum f = value_of (base_confidence f) + value_of (urgency_boost f)
     + value_of (location_boost f) + value_of (keyword_boost f)"

definition documented_urgency_keywords :: "string list" where
  "documented_urgency_keywords = [''emergency'', ''urgent'', ''help'']"

section \<open>The provider fallback\<close>









section \<open>Example inputs\<close>

text \<open>Concrete alerts, responses and states on which the theorems below are instantiated.\<close>

definition example_alert ::
  "string \<Rightarrow> jsval \<Rightarrow> (jsnum \<times> jsnum) option \<Rightarrow> tweet" where
  "example_alert name priority coords =
     \<lparr>tweet_id = Some name, tweet_text = name, is_disaster = True,
      confidence = Num (Fin (3 / 4)), priority_score = priority, coordinates = coords,
      geolocation_confidence = Undefined, factors = None, created_at = None, timestamp = None,
      simulation = False\<rparr>"

definition example_env :: "health_body response \<Rightarrow> live_body response \<Rightarrow> environment" where
  "example_env health live =
     \<lparr>health_response = health, start_response = Ok (), live_response = live,
      clock = 1000000, parse_date = (\<lambda>d. None), random_recent = (\<lambda>i. 1000000 - int i)\<rparr>"

definition example_state :: app_state where
  "example_state = \<lparr>st_tweets = [], st_selectedTweet = None, st_loading = False,
     st_lastUpdate = 0, st_streamingActive = False, st_apiStatus = Checking\<rparr>"




text \<open>The weights and keywords \<^verbatim>\<open>FINAL_SYSTEM_DOCUMENTATION.md\<close> gives, with a threshold of one half.\<close>

definition documented_config :: scoring_config where
  "documented_config =
     \<lparr>urgency_keywords = documented_urgency_keywords,
      disaster_keywords = [''fire'', ''earthquake'', ''flood''],
      confidence_weight = 1, urgency_bonus = 3 / 10, coordinate_bonus = 2 / 10, location_text_bonus = 1 / 10,
      keyword_bonus = 1 / 10, confidence_threshold = 1 / 2\<rparr>"

section \<open>Properties of rounding\<close>

lemma log2f_bounds: "0 < n \<Longrightarrow> 2 ^ log2f n \<le> n \<and> n < 2 ^ Suc (log2f n)"
proof (induction n rule: log2f.induct)
  case (1 n)
  show ?case
  proof (cases "n < 2")
    case True
    with 1(2) show ?thesis by (simp add: log2f.simps [of n])
  next
    case False
    then have "0 < n div 2" by simp
    with 1(1) False have ih: "2 ^ log2f (n div 2) \<le> n div 2 \<and> n div 2 < 2 ^ Suc (log2f (n div 2))"
      by simp
    have eq: "log2f n = Suc (log2f (n div 2))" using False by (simp add: log2f.simps [of n])
    from ih show ?thesis unfolding eq by (simp; linarith)
  qed
qed

lemma pow2_powi: "pow2 e = 2 powi e"
  by (simp add: pow2_def power_int_def field_simps)

lemma pow2_pos [simp]: "0 < pow2 e"
  by (simp add: pow2_def)

lemma pow2_add: "pow2 (a + b) = pow2 a * pow2 b"
  by (simp add: pow2_powi power_int_add)

lemma pow2_mono: "a \<le> b \<Longrightarrow> pow2 a \<le> pow2 b"
  by (simp add: pow2_powi power_int_increasing)

lemma pow2_strict_mono: "a < b \<Longrightarrow> pow2 a < pow2 b"
  by (simp add: pow2_powi power_int_strict_increasing)

lemma pow2_nat: "pow2 (int n) = 2 ^ n"
  by (simp add: pow2_def)

lemma pow2_neg_nat: "pow2 (- int n) = 1 / 2 ^ n"
  by (cases "n = 0") (simp_all add: pow2_def)

lemma pow2_nonneg [simp]: "0 \<le> pow2 e"
  using pow2_pos [of e] by (rule less_imp_le)

lemma binexp_lower:
  assumes "x \<noteq> 0"
  shows "pow2 (binexp x) \<le> \<bar>x\<bar>"
proof (cases "1 \<le> \<bar>x\<bar>")
  case True
  let ?n = "nat \<lfloor>\<bar>x\<bar>\<rfloor>"
  have n: "0 < ?n" using True by simp
  have "(2::rat) ^ log2f ?n = of_nat (2 ^ log2f ?n)" by simp
  also have "\<dots> \<le> of_nat ?n" using log2f_bounds [OF n] by (simp only: of_nat_le_iff)
  also have "\<dots> = of_int \<lfloor>\<bar>x\<bar>\<rfloor>" using True by simp
  also have "\<dots> \<le> \<bar>x\<bar>" by simp
  finally show ?thesis using True by (simp add: binexp_def pow2_nat)
next
  case False
  let ?y = "1 / \<bar>x\<bar>"
  let ?m = "nat (\<lceil>?y\<rceil> - 1)"
  have y: "1 < ?y" using False assms by simp
  then have c: "2 \<le> \<lceil>?y\<rceil>" by (simp add: le_ceiling_iff)
  then have m: "0 < ?m" by simp
  have "?y \<le> of_int \<lceil>?y\<rceil>" by simp
  also have "\<dots> = of_int (int (Suc ?m))"
  proof -
    have "int (Suc ?m) = \<lceil>?y\<rceil>" using c by linarith
    then show ?thesis by (simp only:)
  qed
  also have "\<dots> = of_nat (Suc ?m)" by (simp only: of_int_of_nat_eq)
  also have "\<dots> \<le> of_nat (2 ^ Suc (log2f ?m))"
    using log2f_bounds [OF m] by (simp only: of_nat_le_iff) simp
  finally have "?y \<le> 2 ^ Suc (log2f ?m)" by simp
  then have "1 / 2 ^ Suc (log2f ?m) \<le> \<bar>x\<bar>"
    using assms by (simp add: field_simps)
  then have "pow2 (- int (Suc (log2f ?m))) \<le> \<bar>x\<bar>"
    by (simp only: pow2_neg_nat)
  then show ?thesis using False by (simp only: binexp_def if_False)
qed

lemma rne_lower: "\<lfloor>y\<rfloor> \<le> rne y"
  by (simp add: rne_def Let_def)

lemma rne_upper: "rne y \<le> \<lceil>y\<rceil>"
proof -
  have "y \<noteq> of_int \<lfloor>y\<rfloor> \<Longrightarrow> \<lfloor>y\<rfloor> + 1 \<le> \<lceil>y\<rceil>"
    by (metis ceiling_altdef order_refl)
  moreover have "y = of_int \<lfloor>y\<rfloor> \<Longrightarrow> rne y = \<lfloor>y\<rfloor>"
    by (simp add: rne_def Let_def)
  ultimately show ?thesis
    by (cases "y = of_int \<lfloor>y\<rfloor>") (auto simp: rne_def Let_def ceiling_altdef)
qed

lemma rne_le_int: "y \<le> of_int k \<Longrightarrow> rne y \<le> k"
  using rne_upper [of y] by (meson ceiling_le order_trans)

lemma rne_ge_int: "of_int k \<le> y \<Longrightarrow> k \<le> rne y"
  using rne_lower [of y] by (meson le_floor_iff order_trans)

lemma rnd_nonneg:
  assumes "0 \<le> x"
  shows "0 \<le> rnd x"
proof -
  have "0 \<le> rne (x / pow2 e)" for e
    using assms by (intro rne_ge_int) simp
  then have "0 \<le> of_int (rne (x / pow2 e)) * pow2 e" for e
    by (intro mult_nonneg_nonneg) simp_all
  then show ?thesis by (simp add: rnd_def Let_def)
qed

lemma rnd_nonpos:
  assumes "x \<le> 0"
  shows "rnd x \<le> 0"
proof -
  have "rne (x / pow2 e) \<le> 0" for e
    using assms by (intro rne_le_int) (simp add: divide_nonpos_pos)
  then have "of_int (rne (x / pow2 e)) * pow2 e \<le> 0" for e
    by (intro mult_nonpos_nonneg) simp_all
  then show ?thesis by (simp add: rnd_def Let_def)
qed

lemma rnd_le_nat:
  assumes "x \<le> of_nat k" and "k < 2 ^ 53"
  shows "rnd x \<le> of_nat k"
proof (cases "x \<le> 0")
  case True
  then have "rnd x \<le> 0" by (rule rnd_nonpos)
  then show ?thesis by (meson of_nat_0_le_iff order_trans)
next
  case False
  then have x: "0 < x" by simp
  have "pow2 (binexp x) \<le> \<bar>x\<bar>" using x by (intro binexp_lower) simp
  also have "\<dots> \<le> of_nat k" using assms x by simp
  also have "\<dots> < of_nat (2 ^ 53)" using assms(2) by (simp only: of_nat_less_iff)
  also have "\<dots> = pow2 53" by (simp add: pow2_def)
  finally have "binexp x < 53"
    by (meson not_le pow2_mono leD leI)
  define e where "e = max (binexp x - 52) (- 1074)"
  have e: "e \<le> 0" using \<open>binexp x < 53\<close> by (simp add: e_def)
  define m where "m = nat (- e)"
  have pe: "pow2 e = 1 / 2 ^ m" using e by (simp add: m_def pow2_neg_nat [symmetric])
  have "x / pow2 e = x * 2 ^ m" by (simp add: pe)
  also have "\<dots> \<le> of_nat k * 2 ^ m" using assms(1) by simp
  also have "\<dots> = of_int (int k * 2 ^ m)" by simp
  finally have "rne (x / pow2 e) \<le> int k * 2 ^ m" by (rule rne_le_int)
  then have "(of_int (rne (x / pow2 e)) :: rat) \<le> of_int (int k * 2 ^ m)"
    by (simp only: of_int_le_iff)
  then have "of_int (rne (x / pow2 e)) * pow2 e \<le> of_nat k"
    by (simp add: pe field_simps)
  then show ?thesis using x by (simp add: rnd_def e_def Let_def)
qed

lemma rnd_pos:
  assumes "pow2 (- 1074) \<le> z"
  shows "0 < rnd z"
proof -
  have z: "0 < z" using assms pow2_pos [of "- 1074"] by linarith
  define e where "e = max (binexp z - 52) (- 1074)"
  have "pow2 e \<le> z"
  proof (cases "binexp z - 52 \<le> - 1074")
    case True
    then show ?thesis using assms by (simp add: e_def max_def)
  next
    case False
    then have "e = binexp z - 52" by (simp add: e_def)
    then have "pow2 e \<le> pow2 (binexp z)" by (simp add: pow2_mono)
    also have "\<dots> \<le> \<bar>z\<bar>" using z by (intro binexp_lower) simp
    finally show ?thesis using z by simp
  qed
  then have "of_int 1 \<le> z / pow2 e" by (simp add: field_simps)
  then have "1 \<le> rne (z / pow2 e)" by (rule rne_ge_int)
  then have "0 < (of_int (rne (z / pow2 e)) :: rat)" by simp
  then have "0 < of_int (rne (z / pow2 e)) * pow2 e" by simp
  then show ?thesis using z by (simp add: rnd_def e_def Let_def)
qed

lemma rnd_multiple:
  "\<exists>K::int. rnd x = of_int K * pow2 (- 1074)"
proof (cases "x = 0")
  case True
  then have "rnd x = of_int 0 * pow2 (- 1074)" by (simp add: rnd_def)
  then show ?thesis by blast
next
  case False
  define e where "e = max (binexp x - 52) (- 1074)"
  have "0 \<le> e + 1074" by (simp add: e_def)
  then obtain n where n: "e + 1074 = int n" using nonneg_int_cases by blast
  have "e = int n + (- 1074)" using n by linarith
  then have "pow2 e = pow2 (int n + (- 1074))" by simp
  also have "\<dots> = 2 ^ n * pow2 (- 1074)" by (simp only: pow2_add pow2_nat)
  finally have "rnd x = of_int (rne (x / pow2 e) * 2 ^ n) * pow2 (- 1074)"
    using False by (simp add: rnd_def e_def Let_def)
  then show ?thesis by blast
qed

lemma double_diff_pos:
  assumes "rnd x = x" and "rnd y = y" and "x < y"
  shows "0 < rnd (y - x)"
proof -
  obtain K where K: "x = of_int K * pow2 (- 1074)" using rnd_multiple [of x] assms(1) by auto
  obtain L where L: "y = of_int L * pow2 (- 1074)" using rnd_multiple [of y] assms(2) by auto
  have "K < L" using assms(3) unfolding K L by (simp add: mult_less_cancel_right_pos)
  then have "(of_int 1 :: rat) \<le> of_int (L - K)" by (simp only: of_int_le_iff)
  then have "1 * pow2 (- 1074) \<le> of_int (L - K) * pow2 (- 1074)"
    by (intro mult_right_mono) simp_all
  then have "pow2 (- 1074) \<le> y - x" unfolding K L by (simp add: algebra_simps)
  then show ?thesis by (rule rnd_pos)
qed

text \<open>
  The definitions are what their names say: \<open>binexp\<close> is the binary exponent, \<open>rne\<close> goes
  to a nearest integer, and \<open>rnd\<close> moves a number by at most half a unit in the last place.
\<close>

lemma binexp_upper:
  assumes "x \<noteq> 0"
  shows "\<bar>x\<bar> < pow2 (binexp x + 1)"
proof (cases "1 \<le> \<bar>x\<bar>")
  case True
  let ?n = "nat \<lfloor>\<bar>x\<bar>\<rfloor>"
  have n: "0 < ?n" using True by simp
  have "\<bar>x\<bar> < of_int (\<lfloor>\<bar>x\<bar>\<rfloor> + 1)" by linarith
  also have "\<dots> = of_nat (Suc ?n)" using True by simp
  also have "\<dots> \<le> of_nat (2 ^ Suc (log2f ?n))"
    using log2f_bounds [OF n] by (simp only: of_nat_le_iff) simp
  also have "\<dots> = pow2 (int (Suc (log2f ?n)))" by (simp only: pow2_nat) simp
  finally show ?thesis using True by (simp add: binexp_def add.commute)
next
  case False
  let ?y = "1 / \<bar>x\<bar>"
  let ?m = "nat (\<lceil>?y\<rceil> - 1)"
  have y: "1 < ?y" using False assms by simp
  then have c: "2 \<le> \<lceil>?y\<rceil>" by (simp add: le_ceiling_iff)
  then have m: "0 < ?m" by simp
  have "(2::rat) ^ log2f ?m = of_nat (2 ^ log2f ?m)" by simp
  also have "\<dots> \<le> of_nat ?m" using log2f_bounds [OF m] by (simp only: of_nat_le_iff)
  also have "\<dots> = of_int (int ?m)" by (simp only: of_int_of_nat_eq)
  also have "\<dots> = of_int (\<lceil>?y\<rceil> - 1)"
  proof -
    have "int ?m = \<lceil>?y\<rceil> - 1" using c by linarith
    then show ?thesis by (simp only:)
  qed
  also have "\<dots> < ?y" by linarith
  finally have "\<bar>x\<bar> < 1 / 2 ^ log2f ?m" using assms by (simp add: field_simps)
  then have "\<bar>x\<bar> < pow2 (- int (log2f ?m))" by (simp only: pow2_neg_nat)
  then show ?thesis using False by (simp add: binexp_def)
qed

lemma binexp_unique:
  assumes "pow2 e \<le> \<bar>x\<bar>" and "\<bar>x\<bar> < pow2 (e + 1)"
  shows "binexp x = e"
proof -
  have "0 < \<bar>x\<bar>" using assms(1) pow2_pos [of e] by linarith
  then have x: "x \<noteq> 0" by simp
  have "pow2 e < pow2 (binexp x + 1)"
    using assms(1) binexp_upper [OF x] by linarith
  then have "e < binexp x + 1" by (meson not_le pow2_mono leD leI)
  moreover have "pow2 (binexp x) < pow2 (e + 1)"
    using assms(2) binexp_lower [OF x] by linarith
  then have "binexp x < e + 1" by (meson not_le pow2_mono leD leI)
  ultimately show ?thesis by linarith
qed

lemma rne_nearest: "\<bar>of_int (rne y) - y\<bar> \<le> 1 / 2"
proof -
  have f: "of_int \<lfloor>y\<rfloor> \<le> y" "y < of_int \<lfloor>y\<rfloor> + 1" by linarith+
  consider (lo) "y - of_int \<lfloor>y\<rfloor> < 1 / 2" | (hi) "1 / 2 < y - of_int \<lfloor>y\<rfloor>"
    | (tie) "y - of_int \<lfloor>y\<rfloor> = 1 / 2"
    by linarith
  then show ?thesis
  proof cases
    case lo
    then have "rne y = \<lfloor>y\<rfloor>" by (simp add: rne_def Let_def)
    then show ?thesis using lo f by simp
  next
    case hi
    then have "rne y = \<lfloor>y\<rfloor> + 1" by (simp add: rne_def Let_def)
    then show ?thesis using hi f by simp
  next
    case tie
    then have "rne y = \<lfloor>y\<rfloor> \<or> rne y = \<lfloor>y\<rfloor> + 1" by (simp add: rne_def Let_def)
    then show ?thesis using tie f by auto
  qed
qed

lemma rnd_nearest:
  "\<bar>rnd x - x\<bar> \<le> pow2 (max (binexp x - 52) (- 1074)) / 2"
proof (cases "x = 0")
  case True
  then show ?thesis by (simp add: rnd_def)
next
  case False
  define e where "e = max (binexp x - 52) (- 1074)"
  have "pow2 e \<noteq> 0" using pow2_pos [of e] by (rule less_imp_neq [symmetric])
  then have "rnd x - x = (of_int (rne (x / pow2 e)) - x / pow2 e) * pow2 e"
    using False by (simp add: rnd_def e_def Let_def algebra_simps)
  then have "\<bar>rnd x - x\<bar> = \<bar>of_int (rne (x / pow2 e)) - x / pow2 e\<bar> * pow2 e"
    by (simp add: abs_mult)
  also have "\<dots> \<le> 1 / 2 * pow2 e"
    by (intro mult_right_mono rne_nearest) simp
  finally show ?thesis by (simp add: e_def)
qed

text \<open>Rounding is idempotent, so what an arithmetic operation returns is a number.\<close>

lemma rne_of_int [simp]: "rne (of_int k) = k"
  by (simp add: rne_def Let_def)

lemma pow2_diff: "pow2 (a - b) = pow2 a / pow2 b"
proof -
  have "pow2 (a - b) * pow2 b = pow2 a" by (simp add: pow2_add [symmetric])
  moreover have "pow2 b \<noteq> 0" using pow2_pos [of b] by (rule less_imp_neq [symmetric])
  ultimately show ?thesis by (simp add: field_simps)
qed

lemma binexp_less: "x \<noteq> 0 \<Longrightarrow> \<bar>x\<bar> < pow2 n \<Longrightarrow> binexp x < n"
  using binexp_lower [of x] by (meson not_le pow2_mono leD leI le_less_trans)

lemma rne_abs_le:
  assumes "\<bar>y\<bar> \<le> of_int n"
  shows "\<bar>rne y\<bar> \<le> n"
proof -
  have "rne y \<le> n" using assms by (intro rne_le_int) linarith
  moreover have "- n \<le> rne y" using assms by (intro rne_ge_int) simp
  ultimately show ?thesis by linarith
qed

lemma pow2_add_53: "pow2 (e + 53) = 2 ^ 53 * pow2 e"
proof -
  have "pow2 (e + 53) = pow2 e * pow2 53" by (rule pow2_add)
  also have "pow2 53 = 2 ^ 53" by (simp add: pow2_def)
  finally show ?thesis by (simp add: mult.commute)
qed

lemma pow2_add_1: "pow2 (e + 1) = pow2 e * 2"
proof -
  have "pow2 (e + 1) = pow2 e * pow2 1" by (rule pow2_add)
  also have "pow2 1 = 2" by (simp add: pow2_def)
  finally show ?thesis .
qed

lemma rnd_idem: "rnd (rnd x) = rnd x"
proof (cases "rnd x = 0")
  case True
  then show ?thesis by (simp add: rnd_def)
next
  case False
  then have x: "x \<noteq> 0" by (auto simp: rnd_def)
  define e where "e = max (binexp x - 52) (- 1074)"
  define k where "k = rne (x / pow2 e)"
  define r where "r = of_int k * pow2 e"
  have r: "rnd x = r" using x by (simp add: rnd_def e_def k_def r_def Let_def)
  have k0: "k \<noteq> 0" using False r by (auto simp: r_def)
  have pe: "pow2 e \<noteq> 0" using pow2_pos [of e] by (rule less_imp_neq [symmetric])
  have "\<bar>x\<bar> < pow2 (binexp x + 1)" using x by (rule binexp_upper)
  also have "\<dots> \<le> pow2 (e + 53)" by (intro pow2_mono) (simp add: e_def)
  also have "\<dots> = 2 ^ 53 * pow2 e" by (rule pow2_add_53)
  finally have "\<bar>x / pow2 e\<bar> < 2 ^ 53" by (simp add: abs_divide field_simps)
  then have "\<bar>x / pow2 e\<bar> \<le> of_int (2 ^ 53)" by simp
  then have kb: "\<bar>k\<bar> \<le> 2 ^ 53" unfolding k_def by (rule rne_abs_le)
  define e' where "e' = max (binexp r - 52) (- 1074)"
  have rn: "r \<noteq> 0" using k0 pe by (simp add: r_def)
  have "\<exists>j. r / pow2 e' = of_int j"
  proof (cases "\<bar>k\<bar> = 2 ^ 53")
    case True
    have "(of_int \<bar>k\<bar> :: rat) = of_int (2 ^ 53)" using True by (simp only:)
    then have "\<bar>r\<bar> = pow2 (e + 53)"
      by (simp add: r_def abs_mult pow2_add_53)
    then have "binexp r = e + 53" by (intro binexp_unique) (simp_all add: pow2_strict_mono)
    then have e': "e' = e + 1" by (simp add: e'_def e_def)
    have "r / pow2 e' = of_int k * pow2 e / (pow2 e * 2)"
      by (simp add: r_def e' pow2_add_1)
    also have "\<dots> = of_int k / 2" using pe by simp
    also have "\<dots> = of_int (k div 2)"
    proof -
      have "k = 2 ^ 53 \<or> k = - (2 ^ 53)" using True by linarith
      then have "even k" by auto
      then show ?thesis by (auto elim!: evenE)
    qed
    finally show ?thesis by blast
  next
    case False
    then have "\<bar>k\<bar> < 2 ^ 53" using kb by linarith
    then have "(of_int \<bar>k\<bar> :: rat) < of_int (2 ^ 53)" by (simp only: of_int_less_iff)
    then have "\<bar>r\<bar> < 2 ^ 53 * pow2 e"
      by (simp add: r_def abs_mult)
    also have "\<dots> = pow2 (e + 53)" by (rule pow2_add_53 [symmetric])
    finally have "binexp r < e + 53" using rn by (intro binexp_less)
    then have "e' \<le> e" by (simp add: e'_def e_def)
    then have "0 \<le> e - e'" by simp
    then obtain n where "e - e' = int n" using nonneg_int_cases by blast
    then have n: "e = e' + int n" by linarith
    have pe': "pow2 e' \<noteq> 0" using pow2_pos [of e'] by (rule less_imp_neq [symmetric])
    have "r / pow2 e' = of_int k * (pow2 e' * 2 ^ n) / pow2 e'"
      by (simp add: r_def n pow2_add pow2_nat)
    also have "\<dots> = of_int (k * 2 ^ n)" using pe' by simp
    finally show ?thesis by blast
  qed
  then obtain j where j: "r / pow2 e' = of_int j" by blast
  have pe': "pow2 e' \<noteq> 0" using pow2_pos [of e'] by (rule less_imp_neq [symmetric])
  have "rnd r = of_int (rne (r / pow2 e')) * pow2 e'"
    using rn by (simp add: rnd_def e'_def Let_def)
  also have "\<dots> = of_int j * pow2 e'" by (simp add: j)
  also have "\<dots> = r" using j pe' by (simp add: field_simps)
  finally show ?thesis by (simp add: r)
qed

lemma is_number_round64: "is_number (round64 x)"
  by (auto simp: round64_def Let_def is_double_def rnd_idem abs_if)

lemma is_number_lit: "is_number (lit q)"
  by (simp add: lit_def is_number_round64)

text \<open>Evaluating the rounding of a given rational by rewriting.\<close>

lemma floor_rat_numeral: "\<lfloor>numeral a / numeral b :: rat\<rfloor> = numeral a div numeral b"
  by (metis floor_divide_of_int_eq of_int_numeral)
lemma floor_rat_neg_numeral: "\<lfloor>- (numeral a / numeral b) :: rat\<rfloor> = - numeral a div numeral b"
  by (metis divide_minus_left floor_divide_of_int_eq of_int_neg_numeral of_int_numeral)
lemma floor_rat_one: "\<lfloor>1 / numeral b :: rat\<rfloor> = 1 div numeral b"
  by (metis floor_divide_of_int_eq of_int_1 of_int_numeral)
lemma ceiling_rat_numeral: "\<lceil>numeral a / numeral b :: rat\<rceil> = - (- numeral a div numeral b)"
  using ceiling_divide_eq_div [of "numeral a" "numeral b", where ?'a = rat] by simp
lemma ceiling_rat_neg_numeral: "\<lceil>- (numeral a / numeral b) :: rat\<rceil> = - (numeral a div numeral b)"
  using ceiling_divide_eq_div [of "- numeral a" "numeral b", where ?'a = rat] by simp
lemmas rnd_eval = rnd_def binexp_def log2f.simps pow2_def rne_def Let_def
  floor_rat_numeral floor_rat_neg_numeral floor_rat_one ceiling_rat_numeral ceiling_rat_neg_numeral

lemma is_double_half: "is_double (1 / 2)"
  by (simp add: is_double_def rnd_eval)

lemma is_double_three_quarters: "is_double (3 / 4)"
  by (simp add: is_double_def rnd_eval)

lemma is_double_zero: "is_double 0"
  by (simp add: is_double_def rnd_def)

section \<open>Properties of the clustering operation\<close>

lemma first_keys_Nil [simp]: "first_keys [] = []"
  by (simp add: first_keys_def List.map_filter_def)

lemma set_first_keys: "set (first_keys ts) = {k. \<exists>t \<in> set ts. tkey t = Some k}"
  by (force simp: first_keys_def List.map_filter_def)

lemma distinct_first_keys [simp]: "distinct (first_keys ts)"
  by (simp add: first_keys_def)

lemma first_keys_snoc:
  "first_keys (ts @ [t]) =
     (case tkey t of None \<Rightarrow> first_keys ts
      | Some k \<Rightarrow> if k \<in> set (first_keys ts) then first_keys ts else first_keys ts @ [k])"
  by (auto simp: first_keys_def List.map_filter_def split: option.splits)

lemma members_snoc:
  "members k (ts @ [t]) = (if tkey t = Some k then members k ts @ [t] else members k ts)"
  by (simp add: members_def)

lemma members_empty_iff: "members k ts = [] \<longleftrightarrow> k \<notin> set (first_keys ts)"
  by (auto simp: members_def set_first_keys filter_empty_conv)

lemma map_of_keyed:
  "map_of (map (\<lambda>k. (k, g k)) ks) k = (if k \<in> set ks then Some (g k) else None)"
  by (induction ks) auto

lemma modify_keyed:
  "distinct ks \<Longrightarrow>
   modify k f (map (\<lambda>k'. (k', g k')) ks) = map (\<lambda>k'. (k', if k' = k then f (g k') else g k')) ks"
  by (induction ks) auto

lemma modify_append_new:
  "k \<notin> fst ` set kvs \<Longrightarrow> modify k f (kvs @ [(k, v)]) = kvs @ [(k, f v)]"
  by (induction kvs) auto

lemma push_new_group:
  "coordinates t = Some c \<Longrightarrow> push_tweet t (new_group c) = summarize [t]"
  by (simp add: push_tweet_def new_group_def summarize_def scores_def)

lemma push_summarize:
  "ms \<noteq> [] \<Longrightarrow> push_tweet t (summarize ms) = summarize (ms @ [t])"
  by (simp add: push_tweet_def summarize_def scores_def)

lemma locationGroups_snoc: "locationGroups (ts @ [t]) = add_tweet (locationGroups ts) t"
  by (simp add: locationGroups_def)

lemma locationGroups_eq:
  "locationGroups ts = map (\<lambda>k. (k, summarize (members k ts))) (first_keys ts)"
proof (induction ts rule: rev_induct)
  case Nil
  show ?case by (simp add: locationGroups_def)
next
  case (snoc t ts)
  let ?gs = "map (\<lambda>k. (k, summarize (members k ts))) (first_keys ts)"
  show ?case
  proof (cases "coordinates t")
    case None
    then have "tkey t = None" by (simp add: tkey_def)
    then show ?thesis
      using snoc None by (simp add: locationGroups_snoc add_tweet_def first_keys_snoc members_snoc)
  next
    case (Some c)
    let ?k = "key_of c"
    have tk: "tkey t = Some ?k" using Some by (simp add: tkey_def)
    show ?thesis
    proof (cases "?k \<in> set (first_keys ts)")
      case True
      then have ne: "members ?k ts \<noteq> []" by (simp add: members_empty_iff)
      have "add_tweet ?gs t = modify ?k (push_tweet t) ?gs"
        using True Some by (simp add: add_tweet_def map_of_keyed Let_def)
      also have "\<dots> = map (\<lambda>k'. (k', if k' = ?k then push_tweet t (summarize (members k' ts))
                                    else summarize (members k' ts))) (first_keys ts)"
        by (rule modify_keyed) simp
      also have "\<dots> = map (\<lambda>k. (k, summarize (members k (ts @ [t])))) (first_keys ts)"
        using ne tk by (auto simp: members_snoc push_summarize)
      finally show ?thesis
        using snoc True tk by (simp add: locationGroups_snoc first_keys_snoc)
    next
      case False
      then have e: "members ?k ts = []" by (simp add: members_empty_iff)
      have nk: "?k \<notin> fst ` set ?gs" using False by (auto simp: image_iff)
      have "add_tweet ?gs t = modify ?k (push_tweet t) (?gs @ [(?k, new_group c)])"
        using False Some by (simp add: add_tweet_def map_of_keyed Let_def)
      also have "\<dots> = ?gs @ [(?k, summarize [t])]"
        using modify_append_new [OF nk] Some by (simp add: push_new_group)
      also have "\<dots> = map (\<lambda>k. (k, summarize (members k (ts @ [t])))) (first_keys ts @ [?k])"
        using False e tk by (auto simp: members_snoc)
      finally show ?thesis
        using snoc False tk by (simp add: locationGroups_snoc first_keys_snoc)
    qed
  qed
qed


lemma heatmapData_eq:
  "heatmapData ts = map (\<lambda>k. finish (summarize (members k ts))) (first_keys ts)"
  by (simp add: heatmapData_def locationGroups_eq comp_def)

lemma group_tweets_finish [simp]: "group_tweets (finish g) = group_tweets g"
  by (simp add: finish_def location_group.defs)

lemma count_finish [simp]: "count (finish g) = count g"
  by (simp add: finish_def location_group.defs)

lemma maxPriority_finish [simp]: "maxPriority (finish g) = maxPriority g"
  by (simp add: finish_def location_group.defs)

lemma totalPriority_finish [simp]: "totalPriority (finish g) = totalPriority g"
  by (simp add: finish_def location_group.defs)

lemma group_coordinates_finish [simp]: "group_coordinates (finish g) = group_coordinates g"
  by (simp add: finish_def location_group.defs)

lemma avgPriority_finish [simp]:
  "avgPriority (finish g) = js_div_count (totalPriority g) (count g)"
  by (simp add: finish_def location_group.defs)

lemma intensity_finish [simp]: "intensity (finish g) = maxPriority g"
  by (simp add: finish_def location_group.defs)

lemma summarize_simps [simp]:
  "group_tweets (summarize ms) = ms"
  "count (summarize ms) = length ms"
  "totalPriority (summarize ms) = foldl js_add (Fin 0) (scores ms)"
  "maxPriority (summarize ms) = foldl js_max (Fin 0) (scores ms)"
  "group_coordinates (summarize ms) = the (coordinates (hd ms))"
  by (simp_all add: summarize_def)

lemma cluster_members:
  "c \<in> set (heatmapData ts) \<longleftrightarrow>
     (\<exists>k \<in> set (first_keys ts). c = finish (summarize (members k ts)))"
  by (auto simp: heatmapData_eq)

lemma in_members: "t \<in> set (members k ts) \<longleftrightarrow> t \<in> set ts \<and> tkey t = Some k"
  by (auto simp: members_def)

lemma useHeatmapData_computes:
  "cell = None \<or> (\<exists>deps v. cell = Some (deps, v) \<and> deps \<noteq> Some r) \<Longrightarrow>
   useHeatmapData mem cell (Some r) =
     (heatmapData (mem r), Some (Some r, heatmapData (mem r)))"
  by (auto simp: useHeatmapData_def Let_def)

lemma useHeatmapData_keeps:
  "useHeatmapData mem (Some (Some r, v)) (Some r) = (v, Some (Some r, v))"
  by (simp add: useHeatmapData_def Let_def)

lemma useHeatmapData_same_array:
  "fst (useHeatmapData changed (snd (useHeatmapData mem cell (Some r))) (Some r)) =
   fst (useHeatmapData mem cell (Some r))"
  by (auto simp: useHeatmapData_def Let_def split: option.splits)

lemma page_after_snoc: "page_after (es @ [e]) = step (page_after es) e"
  by (simp add: page_after_def)

lemma page_after_invariant:
  "tweets_state (page_after es) < unused (page_after es)
   \<and> (\<forall>deps v. memo (page_after es) = Some (deps, v) \<longrightarrow>
         (\<exists>r. deps = Some r \<and> r < unused (page_after es)
            \<and> v = heatmapData (arrays (page_after es) r)))"
proof (induction es rule: rev_induct)
  case Nil
  show ?case by (simp add: page_after_def initial_page_def)
next
  case (snoc e es)
  let ?p = "page_after es"
  show ?case
  proof (cases e)
    case (Set_tweets built)
    then have p: "page_after (es @ [e]) = setTweets built ?p" by (simp add: page_after_snoc)
    show ?thesis unfolding p using snoc by (fastforce simp: setTweets_def)
  next
    case Render
    then have p: "page_after (es @ [e]) = snd (render ?p)" by (simp add: page_after_snoc)
    show ?thesis unfolding p using snoc
      by (auto simp: render_def useHeatmapData_def Let_def split: option.splits prod.splits)
  qed
qed

lemma render_result:
  "fst (render (page_after es)) = heatmapData (tweets_of (page_after es))"
  using page_after_invariant [of es]
  by (auto simp: render_def useHeatmapData_def Let_def tweets_of_def split: option.splits prod.splits)

lemma tkey_None: "coordinates t = None \<Longrightarrow> tkey t = None"
  by (simp add: tkey_def)

lemma first_keys_drop:
  "tkey t = None \<Longrightarrow> first_keys (xs @ t # ys) = first_keys (xs @ ys)"
  by (simp add: first_keys_def List.map_filter_def)

lemma members_drop:
  "tkey t = None \<Longrightarrow> members k (xs @ t # ys) = members k (xs @ ys)"
  by (simp add: members_def)

lemma heatmapData_drop:
  "coordinates t = None \<Longrightarrow> heatmapData (xs @ t # ys) = heatmapData (xs @ ys)"
  by (simp add: heatmapData_eq first_keys_drop members_drop tkey_None)

lemma alert_feed_nth:
  "i < length tweets \<Longrightarrow>
   alert_feed now sel tweets ! i = alert_card now sel i (tweets ! i)"
  by (simp add: alert_feed_def nth_enumerate_eq)

lemma length_alert_feed [simp]: "length (alert_feed now sel tweets) = length tweets"
  by (simp add: alert_feed_def)

lemma cluster_cases:
  assumes "c \<in> set (heatmapData ts)"
  obtains k where "k \<in> set (first_keys ts)" "c = finish (summarize (members k ts))"
    "members k ts \<noteq> []"
  using assms by (auto simp: cluster_members members_empty_iff)

lemma tkey_hd_members: "members k ts \<noteq> [] \<Longrightarrow> tkey (hd (members k ts)) = Some k"
  using hd_in_set [of "members k ts"] by (simp add: in_members)

lemma members_as_filter:
  "members k ts \<noteq> [] \<Longrightarrow>
   members k ts = filter (\<lambda>t. tkey t = tkey (hd (members k ts))) ts"
  by (simp add: tkey_hd_members) (simp add: members_def)

lemma foldl_js_max_Fin:
  "foldl js_max (Fin m) (map Fin xs) = Fin (Max (insert m (set xs)))"
proof (induction xs arbitrary: m)
  case Nil
  show ?case by simp
next
  case (Cons x xs)
  have "Max (insert (max m x) (set xs)) = Max (insert m (insert x (set xs)))"
    by (cases "set xs = {}") (simp_all add: max.assoc)
  with Cons show ?case by simp
qed

lemma scores_Fin:
  assumes "\<forall>t \<in> set ms. \<exists>x. to_number (priority_score t) = Fin x"
  shows "scores ms = map Fin (map value_of (scores ms))"
  using assms by (induction ms) (auto simp: scores_def)

lemma maxPriority_Fin:
  assumes "\<forall>t \<in> set ms. \<exists>x. to_number (priority_score t) = Fin x"
  shows "foldl js_max (Fin 0) (scores ms) = Fin (Max (insert 0 (value_of ` set (scores ms))))"
proof -
  have "foldl js_max (Fin 0) (scores ms) = foldl js_max (Fin 0) (map Fin (map value_of (scores ms)))"
    using scores_Fin [OF assms] by simp
  then show ?thesis by (simp only: foldl_js_max_Fin set_map)
qed

lemma Max_insert_0:
  assumes "finite S" "S \<noteq> {}" "\<forall>x \<in> S. (0::rat) \<le> x"
  shows "Max (insert 0 S) = Max S"
proof -
  have "0 \<le> Max S" using assms by (meson Max_in)
  then show ?thesis using assms by (simp add: max_def)
qed

lemma round64_Fin: "\<bar>rnd x\<bar> < 2 ^ 1024 \<Longrightarrow> round64 x = Fin (rnd x)"
  by (auto simp: round64_def Let_def)

lemma round64_bounded:
  assumes "0 \<le> x" and "x \<le> of_nat k" and "k < 2 ^ 53"
  shows "round64 x = Fin (rnd x) \<and> 0 \<le> rnd x \<and> rnd x \<le> of_nat k"
proof -
  have lo: "0 \<le> rnd x" using assms(1) by (rule rnd_nonneg)
  have hi: "rnd x \<le> of_nat k" using assms(2,3) by (rule rnd_le_nat)
  have "(of_nat k :: rat) < of_nat (2 ^ 53)" using assms(3) by (simp only: of_nat_less_iff)
  also have "\<dots> < 2 ^ 1024" by simp
  finally have "\<bar>rnd x\<bar> < 2 ^ 1024" using lo hi by simp
  then show ?thesis using lo hi by (simp add: round64_Fin)
qed

lemma foldl_js_add_bounded:
  assumes "\<forall>x \<in> set xs. 0 \<le> x \<and> x \<le> 1" and "0 \<le> s" and "s \<le> of_nat k"
    and "k + length xs < 2 ^ 53"
  shows "\<exists>s'. foldl js_add (Fin s) (map Fin xs) = Fin s' \<and> 0 \<le> s' \<and> s' \<le> of_nat (k + length xs)"
  using assms
proof (induction xs arbitrary: s k)
  case Nil
  then show ?case by simp
next
  case (Cons x xs)
  have x: "0 \<le> x" "x \<le> 1" using Cons.prems(1) by simp_all
  have "s + x \<le> of_nat (Suc k)" using Cons.prems(3) x by simp
  moreover have "0 \<le> s + x" using Cons.prems(2) x by simp
  moreover have "Suc k < 2 ^ 53" using Cons.prems(4) by simp
  ultimately have r: "round64 (s + x) = Fin (rnd (s + x))" "0 \<le> rnd (s + x)"
    "rnd (s + x) \<le> of_nat (Suc k)"
    using round64_bounded [of "s + x" "Suc k"] by simp_all
  have "\<exists>s'. foldl js_add (Fin (rnd (s + x))) (map Fin xs) = Fin s' \<and> 0 \<le> s'
      \<and> s' \<le> of_nat (Suc k + length xs)"
    using Cons.prems(1,4) r(2,3) by (intro Cons.IH) simp_all
  then show ?case using r(1) by simp
qed

lemma foldl_js_max_bounded:
  assumes "\<forall>x \<in> set xs. 0 \<le> x \<and> x \<le> 1"
  shows "\<exists>m. foldl js_max (Fin 0) (map Fin xs) = Fin m \<and> 0 \<le> m \<and> m \<le> 1
     \<and> (\<forall>x \<in> set xs. x \<le> m)"
proof -
  have "Max (insert 0 (set xs)) \<in> insert 0 (set xs)" by (intro Max_in) simp_all
  then have "0 \<le> Max (insert 0 (set xs)) \<and> Max (insert 0 (set xs)) \<le> 1"
    using assms by auto
  moreover have "\<forall>x \<in> set xs. x \<le> Max (insert 0 (set xs))" by simp
  ultimately show ?thesis by (simp add: foldl_js_max_Fin)
qed

lemma sum_list_le_max:
  assumes "\<forall>x \<in> set xs. x \<le> (m::rat)"
  shows "sum_list xs \<le> of_nat (length xs) * m"
  using assms by (induction xs) (simp_all add: algebra_simps)

lemma unit_scores:
  assumes "\<forall>t \<in> set ms. \<exists>x. priority_score t = Num (Fin x) \<and> 0 \<le> x \<and> x \<le> 1"
  shows "scores ms = map Fin (map value_of (scores ms))
     \<and> (\<forall>x \<in> set (map value_of (scores ms)). 0 \<le> x \<and> x \<le> 1)"
proof -
  have "\<forall>t \<in> set ms. \<exists>x. to_number (priority_score t) = Fin x" using assms by fastforce
  then have "scores ms = map Fin (map value_of (scores ms))" by (rule scores_Fin)
  moreover have "\<forall>x \<in> set (map value_of (scores ms)). 0 \<le> x \<and> x \<le> 1"
    using assms by (auto simp: scores_def)
  ultimately show ?thesis by blast
qed

lemma length_members_le: "length (members k ts) \<le> length ts"
  by (simp add: members_def)

lemma set_members_subset: "set (members k ts) \<subseteq> set ts"
  by (auto simp: members_def)

section \<open>The clustering operation on concrete lists\<close>

lemmas heatmap_eval = heatmapData_eq first_keys_def members_def tkey_def key_of_def
  List.map_filter_def scores_def example_alert_def round64_def

lemma two_alerts_eval:
  "heatmapData [example_alert ''a'' (Num (Fin (1 / 2))) (Some (Fin 10, Fin 20)),
      example_alert ''b'' (Num (Fin (3 / 4))) (Some (Fin 10, Fin 20))] \<noteq> []"
  "totalPriority (hd (heatmapData [example_alert ''a'' (Num (Fin (1 / 2))) (Some (Fin 10, Fin 20)),
      example_alert ''b'' (Num (Fin (3 / 4))) (Some (Fin 10, Fin 20))])) = Fin (5 / 4)"
  "length (group_tweets (hd (heatmapData [example_alert ''a'' (Num (Fin (1 / 2))) (Some (Fin 10, Fin 20)),
      example_alert ''b'' (Num (Fin (3 / 4))) (Some (Fin 10, Fin 20))]))) = 2"
  "maxPriority (hd (heatmapData [example_alert ''a'' (Num (Fin (1 / 2))) (Some (Fin 10, Fin 20)),
      example_alert ''b'' (Num (Fin (3 / 4))) (Some (Fin 10, Fin 20))])) = Fin (3 / 4)"
  by (simp_all add: heatmap_eval rnd_eval)

lemma round64_five_eighths: "round64 (5 / 8) = Fin (5 / 8)"
  by (simp add: round64_def rnd_eval)

section \<open>Which alerts share a cluster\<close>

text \<open>
  Two alerts of the input that have coordinates are members of a common cluster exactly
  when their keys are equal, and each alert with coordinates is a member of exactly one
  cluster. Two finite coordinates of magnitude below \<open>10^21\<close> print alike under
  \<^verbatim>\<open>toFixed\<close> exactly when they round to the same value and, where that value is zero, have
  the same sign. The two alerts of the spec's example, at \<open>(37.7750, -122.4190)\<close> and
  \<open>(37.7751, -122.4194)\<close>, form one cluster of count \<open>2\<close>.
\<close>

lemma same_cluster_iff:
  assumes "a \<in> set ts" "b \<in> set ts" "coordinates a = Some ca" "coordinates b = Some cb"
  shows "(\<exists>c \<in> set (heatmapData ts). a \<in> set (group_tweets c) \<and> b \<in> set (group_tweets c))
     \<longleftrightarrow> key_of ca = key_of cb"
proof
  assume "\<exists>c \<in> set (heatmapData ts). a \<in> set (group_tweets c) \<and> b \<in> set (group_tweets c)"
  then obtain k where "a \<in> set (members k ts)" "b \<in> set (members k ts)"
    by (auto simp: cluster_members)
  then have "tkey a = Some k" "tkey b = Some k" by (simp_all add: in_members)
  then show "key_of ca = key_of cb" using assms(3,4) by (simp add: tkey_def)
next
  assume eq: "key_of ca = key_of cb"
  let ?k = "key_of ca"
  have ka: "tkey a = Some ?k" and kb: "tkey b = Some ?k"
    using assms(3,4) eq by (simp_all add: tkey_def)
  have "?k \<in> set (first_keys ts)" using assms(1) ka by (auto simp: set_first_keys)
  then have "finish (summarize (members ?k ts)) \<in> set (heatmapData ts)"
    by (auto simp: cluster_members)
  moreover have "a \<in> set (members ?k ts)" "b \<in> set (members ?k ts)"
    using assms(1,2) ka kb by (simp_all add: in_members)
  ultimately show "\<exists>c \<in> set (heatmapData ts). a \<in> set (group_tweets c) \<and> b \<in> set (group_tweets c)"
    by (intro bexI [of _ "finish (summarize (members ?k ts))"]) simp_all
qed

lemma exactly_one_cluster:
  assumes "t \<in> set ts" "coordinates t = Some c"
  shows "\<exists>!g. g \<in> set (heatmapData ts) \<and> t \<in> set (group_tweets g)"
proof -
  let ?k = "key_of c"
  have kt: "tkey t = Some ?k" using assms(2) by (simp add: tkey_def)
  have "?k \<in> set (first_keys ts)" using assms(1) kt by (auto simp: set_first_keys)
  then have g: "finish (summarize (members ?k ts)) \<in> set (heatmapData ts)"
    by (auto simp: cluster_members)
  have tm: "t \<in> set (group_tweets (finish (summarize (members ?k ts))))"
    using assms(1) kt by (simp add: in_members)
  have "g = finish (summarize (members ?k ts))"
    if "g \<in> set (heatmapData ts)" "t \<in> set (group_tweets g)" for g
  proof -
    from that(1) obtain k where k: "g = finish (summarize (members k ts))"
      by (auto simp: cluster_members)
    with that(2) have "tkey t = Some k" by (simp add: in_members)
    with kt k show ?thesis by simp
  qed
  with g tm show ?thesis by blast
qed

lemma toFixed_eq_iff:
  assumes "\<bar>x\<bar> < 10 ^ 21" "\<bar>y\<bar> < 10 ^ 21"
  shows "toFixed f (Fin x) = toFixed f (Fin y) \<longleftrightarrow>
     round_places f x = round_places f y \<and> (round_places f x = 0 \<longrightarrow> (x < 0 \<longleftrightarrow> y < 0))"
proof -
  define m where "m = \<lfloor>\<bar>x\<bar> * 10 ^ f + 1 / 2\<rfloor>"
  define n where "n = \<lfloor>\<bar>y\<bar> * 10 ^ f + 1 / 2\<rfloor>"
  have m: "0 \<le> m" and n: "0 \<le> n" by (simp_all add: m_def n_def)
  have x0: "m = 0" if "x = 0" using that by (simp add: m_def floor_rat_one)
  have y0: "n = 0" if "y = 0" using that by (simp add: n_def floor_rat_one)
  have fx: "toFixed f (Fin x) = Dec (x < 0) (nat m)" using assms(1) by (simp add: m_def)
  have fy: "toFixed f (Fin y) = Dec (y < 0) (nat n)" using assms(2) by (simp add: n_def)
  have rx: "round_places f x = sgn x * of_int m / 10 ^ f" by (simp add: round_places_def m_def)
  have ry: "round_places f y = sgn y * of_int n / 10 ^ f" by (simp add: round_places_def n_def)
  have req: "round_places f x = round_places f y \<longleftrightarrow> sgn x * of_int m = sgn y * of_int n"
    unfolding rx ry by simp
  have rz: "round_places f x = 0 \<longleftrightarrow> x = 0 \<or> m = 0"
    unfolding rx by (simp add: sgn_eq_0_iff)
  consider "x < 0" | "x = 0" | "0 < x" by linarith
  then show ?thesis
  proof cases
    case 1
    consider "y < 0" | "y = 0" | "0 < y" by linarith
    then show ?thesis
      using 1 m n y0 unfolding fx fy req rz by cases (auto simp: sgn_if)
  next
    case 2
    consider "y < 0" | "y = 0" | "0 < y" by linarith
    then show ?thesis
      using 2 m n x0 y0 unfolding fx fy req rz by cases (auto simp: sgn_if)
  next
    case 3
    consider "y < 0" | "y = 0" | "0 < y" by linarith
    then show ?thesis
      using 3 m n y0 unfolding fx fy req rz by cases (auto simp: sgn_if)
  qed
qed

lemma lit_coordinates:
  "lit (1511 / 40) = Fin (5316358622622515 / 140737488355328)"
  "lit (377751 / 10000) = Fin (5316372696371351 / 140737488355328)"
  "lit (122419 / 1000) = Fin (8614471293485449 / 70368744177664)"
  "lit (612097 / 5000) = Fin (538406215061445 / 4398046511104)"
  by (simp_all add: lit_def round64_def rnd_eval)

lemma spec_example_one_cluster:
  "map (\<lambda>c. (map tweet_text (group_tweets c), count c))
     (heatmapData
       [example_alert ''first'' (Num (Fin (1 / 2)))
          (Some (lit (377750 / 10000), js_neg (lit (1224190 / 10000)))),
        example_alert ''second'' (Num (Fin (3 / 4)))
          (Some (lit (377751 / 10000), js_neg (lit (1224194 / 10000))))])
     = [([''first'', ''second''], 2)]"
  by (simp add: heatmap_eval lit_coordinates floor_rat_numeral)

section \<open>Properties of the sorted view\<close>

lemma or_zero_not_NaN [simp]: "or_zero v \<noteq> NaN"
  by (cases v rule: or_zero.cases) simp_all

lemma js_pos_round64: "js_pos (round64 z) \<longleftrightarrow> 0 < rnd z"
proof -
  have "(0::rat) < 2 ^ 1024" by simp
  then show ?thesis
    unfolding round64_def Let_def by (auto simp del: zero_less_power)
qed

lemma rnd_pos_imp: "0 < rnd z \<Longrightarrow> 0 < z"
  using rnd_nonpos [of z] by (cases "0 < z") auto

lemma js_le_refl: "a \<noteq> NaN \<Longrightarrow> js_le a a"
  by (cases a) simp_all

lemma js_le_trans: "js_le a b \<Longrightarrow> js_le b c \<Longrightarrow> js_le a c"
  by (cases a; cases b; cases c) simp_all

lemma pos_sub_le: "js_pos (js_sub b a) \<Longrightarrow> js_le a b"
  by (cases a; cases b) (auto simp: js_sub_def js_pos_round64 dest!: rnd_pos_imp)

lemma pos_sub_neq: "js_pos (js_sub b a) \<Longrightarrow> a \<noteq> b"
  by (cases a; cases b) (auto simp: js_sub_def js_pos_round64 rnd_def)

lemma not_pos_sub_le:
  assumes "is_number a" "is_number b" "a \<noteq> NaN" "b \<noteq> NaN" "\<not> js_pos (js_sub b a)"
  shows "js_le b a"
proof (cases a; cases b)
  fix x y assume ab: "a = Fin x" "b = Fin y"
  have "\<not> x < y"
  proof
    assume "x < y"
    then have "0 < rnd (y - x)"
      using assms(1,2) ab by (intro double_diff_pos) (simp_all add: is_double_def)
    then show False using assms(5) ab by (simp add: js_sub_def js_pos_round64)
  qed
  then show ?thesis using ab by simp
qed (use assms in \<open>simp_all add: js_sub_def\<close>)

lemma set_insert_sorted [simp]: "set (insert_sorted f a bs) = insert a (set bs)"
  by (induction bs) auto

lemma length_insert_sorted [simp]: "length (insert_sorted f a bs) = Suc (length bs)"
  by (induction bs) auto

lemma js_sort_Cons: "js_sort f (x # xs) = insert_sorted f x (js_sort f xs)"
  by (simp add: js_sort_def)

lemma js_sort_Nil [simp]: "js_sort f [] = []"
  by (simp add: js_sort_def)

lemma set_js_sort [simp]: "set (js_sort f xs) = set xs"
  by (induction xs) (simp_all add: js_sort_Cons)

lemma length_js_sort [simp]: "length (js_sort f xs) = length xs"
  by (induction xs) (simp_all add: js_sort_Cons)

lemma sorted_insert_sorted:
  assumes "sorted_wrt descending bs"
    and "is_number (or_zero (priority_score a))"
    and "\<forall>b \<in> set bs. is_number (or_zero (priority_score b))"
  shows "sorted_wrt descending (insert_sorted by_priority a bs)"
  using assms
proof (induction bs)
  case Nil
  then show ?case by simp
next
  case (Cons b bs)
  show ?case
  proof (cases "js_pos (by_priority a b)")
    case True
    then have "descending b a"
      by (simp add: descending_def by_priority_def pos_sub_le)
    with Cons True show ?thesis by auto
  next
    case False
    then have ab: "descending a b"
      using Cons.prems by (simp add: descending_def by_priority_def not_pos_sub_le)
    have "descending a z" if "z \<in> set bs" for z
      using ab Cons.prems(1) that unfolding descending_def
      by (auto intro: js_le_trans)
    with ab Cons.prems(1) False show ?thesis by auto
  qed
qed

lemma sorted_js_sort:
  "\<forall>t \<in> set xs. is_number (or_zero (priority_score t)) \<Longrightarrow>
   sorted_wrt descending (js_sort by_priority xs)"
  by (induction xs) (simp_all add: js_sort_Cons sorted_insert_sorted)

lemma filter_insert_sorted:
  "filter (\<lambda>t. or_zero (priority_score t) = v) (insert_sorted by_priority a bs) =
     (if or_zero (priority_score a) = v
      then a # filter (\<lambda>t. or_zero (priority_score t) = v) bs
      else filter (\<lambda>t. or_zero (priority_score t) = v) bs)"
proof (induction bs)
  case Nil
  show ?case by simp
next
  case (Cons b bs)
  have "or_zero (priority_score a) \<noteq> or_zero (priority_score b)" if "js_pos (by_priority a b)"
    using that by (simp add: by_priority_def pos_sub_neq)
  with Cons show ?case by auto
qed

lemma js_sort_stable:
  "filter (\<lambda>t. or_zero (priority_score t) = v) (js_sort by_priority xs) =
   filter (\<lambda>t. or_zero (priority_score t) = v) xs"
  by (induction xs) (simp_all add: js_sort_Cons filter_insert_sorted)

lemma priority_score_with_id [simp]:
  "priority_score (with_id_and_timestamp env i t) = priority_score t"
  by (simp add: with_id_and_timestamp_def)

lemma length_sortedTweets [simp]: "length (sortedTweets env xs) = length xs"
  by (simp add: sortedTweets_def)

lemma sortedTweets_nth:
  "i < length xs \<Longrightarrow>
   sortedTweets env xs ! i = with_id_and_timestamp env i (js_sort by_priority xs ! i)"
  by (simp add: sortedTweets_def nth_enumerate_eq)

lemma sorted_wrt_descending_nth:
  "sorted_wrt descending xs \<longleftrightarrow>
     (\<forall>i j. i < j \<longrightarrow> j < length xs \<longrightarrow> descending (xs ! i) (xs ! j))"
  by (simp add: sorted_wrt_iff_nth_less)

lemma sorted_sortedTweets:
  assumes "\<forall>t \<in> set xs. is_number (or_zero (priority_score t))"
  shows "sorted_wrt descending (sortedTweets env xs)"
proof -
  have "sorted_wrt descending (js_sort by_priority xs)"
    using assms by (rule sorted_js_sort)
  then show ?thesis
    by (simp add: sorted_wrt_descending_nth sortedTweets_nth descending_def)
qed


section \<open>Properties of loadTweets\<close>

lemma length_getMockTweets: "length (getMockTweets now) = 5"
  by (simp add: getMockTweets_def)

lemma simulation_getMockTweets: "t \<in> set (getMockTweets now) \<Longrightarrow> simulation t"
  by (auto simp: getMockTweets_def)

lemma getMockTweets_not_Nil: "getMockTweets now \<noteq> []"
  using length_getMockTweets [of now] by auto

lemma sortedTweets_not_Nil: "xs \<noteq> [] \<Longrightarrow> sortedTweets env xs \<noteq> []"
  by (metis length_sortedTweets length_0_conv)

lemma st_tweets_loadTweets:
  "st_tweets (loadTweets env sa st) =
     (case health_response env of
        Ok h \<Rightarrow>
          (case live_response env of
             Ok d \<Rightarrow>
               (case live_tweets d of
                  None \<Rightarrow> getMockTweets (clock env)
                | Some ts \<Rightarrow> if ts = [] then getMockTweets (clock env) else sortedTweets env ts)
           | _ \<Rightarrow> getMockTweets (clock env))
      | _ \<Rightarrow> getMockTweets (clock env))"
  by (simp add: loadTweets_def checkApiStatus_def fetchLiveTweets_def startStreaming_def Let_def
      split: response.splits option.splits)

section \<open>Properties of the priority scorer and of the recorded factors\<close>

lemma lit_0 [simp]: "lit 0 = Fin 0"
  by (simp add: lit_def round64_def rnd_def)

lemma lit_1 [simp]: "lit 1 = Fin 1"
  by (simp add: lit_def round64_def rnd_eval)

lemma lit_boosts:
  "lit (1 / 10) = Fin (3602879701896397 / 36028797018963968)"
  "lit (1 / 5) = Fin (3602879701896397 / 18014398509481984)"
  "lit (3 / 10) = Fin (5404319552844595 / 18014398509481984)"
  "lit (3 / 20) = Fin (5404319552844595 / 36028797018963968)"
  "lit (9 / 10) = Fin (8106479329266893 / 9007199254740992)"
  by (simp_all add: lit_def round64_def rnd_eval)

lemma lit_confidences:
  "lit (911 / 1000) = Fin (2051389630267261 / 2251799813685248)"
  "lit (809 / 1000) = Fin (7286824197085463 / 9007199254740992)"
  "lit (21 / 25) = Fin (7566047373982433 / 9007199254740992)"
  "lit (151 / 200) = Fin (6800435437329449 / 9007199254740992)"
  "lit (349 / 500) = Fin (1571756269952303 / 2251799813685248)"
  by (simp_all add: lit_def round64_def rnd_eval)

lemma clamp01_bounds: "0 \<le> clamp01 x \<and> clamp01 x \<le> 1"
  by (simp add: clamp01_def)

lemma mock_scores_saturated:
  "list_all (\<lambda>t. case factors t of None \<Rightarrow> False
      | Some f \<Rightarrow> 1 < factor_sum f \<and> priority_score t = Num (Fin (clamp01 (factor_sum f))))
     (getMockTweets now)"
  by (simp add: getMockTweets_def factor_sum_def clamp01_def lit_boosts lit_confidences)

lemma mock_confidences:
  "list_all (\<lambda>t. case confidence t of Num (Fin c) \<Rightarrow> 0 \<le> c \<and> c \<le> 1 | _ \<Rightarrow> False)
     (getMockTweets now)"
  by (simp add: getMockTweets_def lit_confidences)

section \<open>The claims\<close>

text \<open>
  The claims about the clustering operation are stated on \<open>heatmapData\<close>, the function
  the hook memoises; by \<open>render_result\<close> it is what the hook returns, on the alerts the
  page holds, in every state the page reaches.
\<close>

subsection \<open>C1: which alerts share a cluster\<close>

text \<open>
  Claim C1 says that two alerts share a cluster if and only if their latitudes and their
  longitudes round identically at three decimal places. Where a coordinate rounds to zero
  from below the code departs from it: \<^verbatim>\<open>toFixed(3)\<close> prints \<^verbatim>\<open>-0.000\<close> for a negative
  number that rounds to zero and \<^verbatim>\<open>0.000\<close> for a positive one, so the keys differ. Two
  alerts at latitude \<open>51.5\<close> and longitudes \<open>-0.0001220703125\<close> and \<open>0.0001220703125\<close>
  (all three exact doubles), whose longitudes both round to \<open>0\<close>, are put in two clusters
  of count \<open>1\<close>.
\<close>

theorem rounding_to_zero_splits_cluster:
  "is_double (1 / 8192) \<and> is_double (- (1 / 8192)) \<and> is_double (103 / 2)
   \<and> round_places 3 (- (1 / 8192)) = round_places 3 (1 / 8192)
   \<and> toFixed 3 (Fin (- (1 / 8192))) = Dec True 0
   \<and> toFixed 3 (Fin (1 / 8192)) = Dec False 0
   \<and> map (\<lambda>c. (map tweet_text (group_tweets c), count c))
     (heatmapData
       [example_alert ''west'' (Num (Fin (1 / 2))) (Some (Fin (103 / 2), Fin (- (1 / 8192)))),
        example_alert ''east'' (Num (Fin (1 / 2))) (Some (Fin (103 / 2), Fin (1 / 8192)))])
     = [([''west''], 1), ([''east''], 1)]"
  by (simp add: heatmap_eval is_double_def rnd_eval round_places_def)

subsection \<open>C2: the priority score is clamped\<close>

text \<open>
  Claim C2. For every configuration and every input, the priority score lies in
  \<open>[0, 1]\<close>: it is the weighted sum of the classifier confidence and the urgency, location
  and keyword terms, equal to \<open>1\<close> whenever that sum exceeds \<open>1\<close> and to the sum itself
  whenever the sum lies in \<open>[0, 1]\<close>. The confidence of the scored alert lies in \<open>[0, 1]\<close>
  too, and is the classifier confidence when that lies in \<open>[0, 1]\<close>. The alerts the
  dashboard holds agree: in each entry of \<^verbatim>\<open>getMockTweets\<close> the recorded factors sum to more
  than \<open>1\<close>, the priority score is that sum clamped (so \<open>1\<close>), and the confidence lies in
  \<open>[0, 1]\<close>.
\<close>

theorem score_clamped:
  "0 \<le> score cfg txt c h g \<and> score cfg txt c h g \<le> 1
   \<and> weighted_sum cfg txt c h g =
       confidence_weight cfg * c + urgency_term cfg txt + location_term cfg h g
         + keyword_term cfg txt
   \<and> (1 < weighted_sum cfg txt c h g \<longrightarrow> score cfg txt c h g = 1)
   \<and> (0 \<le> weighted_sum cfg txt c h g \<and> weighted_sum cfg txt c h g \<le> 1 \<longrightarrow>
        score cfg txt c h g = weighted_sum cfg txt c h g)
   \<and> 0 \<le> alert_confidence (scored_alert cfg txt c h g)
   \<and> alert_confidence (scored_alert cfg txt c h g) \<le> 1
   \<and> (0 \<le> c \<and> c \<le> 1 \<longrightarrow> alert_confidence (scored_alert cfg txt c h g) = c)
   \<and> alert_priority (scored_alert cfg txt c h g) = score cfg txt c h g
   \<and> list_all (\<lambda>t. case factors t of None \<Rightarrow> False
        | Some f \<Rightarrow> 1 < factor_sum f \<and> priority_score t = Num (Fin (clamp01 (factor_sum f))))
       (getMockTweets now)
   \<and> list_all (\<lambda>t. case confidence t of Num (Fin c) \<Rightarrow> 0 \<le> c \<and> c \<le> 1 | _ \<Rightarrow> False)
       (getMockTweets now)"
proof -
  have "0 \<le> score cfg txt c h g \<and> score cfg txt c h g \<le> 1"
    by (simp add: score_def clamp01_bounds)
  moreover have "1 < weighted_sum cfg txt c h g \<longrightarrow> score cfg txt c h g = 1"
    by (simp add: score_def clamp01_def)
  moreover have "0 \<le> weighted_sum cfg txt c h g \<and> weighted_sum cfg txt c h g \<le> 1 \<longrightarrow>
      score cfg txt c h g = weighted_sum cfg txt c h g"
    by (simp add: score_def clamp01_def)
  moreover have "0 \<le> alert_confidence (scored_alert cfg txt c h g)
      \<and> alert_confidence (scored_alert cfg txt c h g) \<le> 1
      \<and> (0 \<le> c \<and> c \<le> 1 \<longrightarrow> alert_confidence (scored_alert cfg txt c h g) = c)
      \<and> alert_priority (scored_alert cfg txt c h g) = score cfg txt c h g"
    by (simp add: scored_alert_def clamp01_def)
  ultimately show ?thesis
    using mock_scores_saturated [of now] mock_confidences [of now]
    by (simp add: weighted_sum_def)
qed

theorem score_clamped_witness:
  "weighted_sum documented_config ''urgent: major earthquake downtown'' (911 / 1000) True (9 / 10)
     = 1511 / 1000
   \<and> score documented_config ''urgent: major earthquake downtown'' (911 / 1000) True (9 / 10) = 1
   \<and> score documented_config ''quiet evening'' (2 / 5) False 0 = 2 / 5"
proof -
  have w1: "weighted_sum documented_config ''urgent: major earthquake downtown'' (911 / 1000)
      True (9 / 10) = 1511 / 1000"
    by (simp add: weighted_sum_def urgency_term_def location_term_def keyword_term_def
        contains_any_def contains_term_def documented_config_def documented_urgency_keywords_def
        upt_rec)
  have w2: "weighted_sum documented_config ''quiet evening'' (2 / 5) False 0 = 2 / 5"
    by (simp add: weighted_sum_def urgency_term_def location_term_def keyword_term_def
        contains_any_def contains_term_def documented_config_def documented_urgency_keywords_def
        upt_rec)
  show ?thesis
    using w1 w2
      score_clamped [of documented_config "''urgent: major earthquake downtown''" "911 / 1000"
        True "9 / 10" 0]
      score_clamped [of documented_config "''quiet evening''" "2 / 5" False 0 0]
    by simp
qed

subsection \<open>C3: when the fallback moves on\<close>




subsection \<open>C4: the sorted view\<close>

text \<open>
  Claim C4. For every non-empty list of fetched alerts whose priority scores are
  JavaScript numbers, the list \<^verbatim>\<open>sortedTweets\<close> built by \<^verbatim>\<open>loadTweets\<close> is in non-increasing
  order of priority (\<^verbatim>\<open>priority_score || 0\<close>, as the comparison function reads it). It has the
  length of the input, each of its entries is the entry of the sorted input at the same
  position with its id and timestamp filled in, and the sort is stable: for every
  priority value, the alerts of that priority stand in the sorted list in the order
  they have in the fetched list, so among equal priorities the one fetched first (the
  most recent one of a most-recent-first input) comes first. This list is what
  \<^verbatim>\<open>loadTweets\<close> displays when the health check and the live fetch succeed with these
  alerts.
\<close>

theorem sortedTweets_descending_stable:
  assumes "liveTweets \<noteq> []"
    and "\<forall>t \<in> set liveTweets. is_number (or_zero (priority_score t))"
  shows "sorted_wrt descending (sortedTweets env liveTweets)
    \<and> length (sortedTweets env liveTweets) = length liveTweets
    \<and> (\<forall>i < length liveTweets. sortedTweets env liveTweets ! i =
          with_id_and_timestamp env i (js_sort by_priority liveTweets ! i))
    \<and> (\<forall>v. filter (\<lambda>t. or_zero (priority_score t) = v) (js_sort by_priority liveTweets) =
          filter (\<lambda>t. or_zero (priority_score t) = v) liveTweets)
    \<and> (\<forall>h d. health_response env = Ok h \<and> live_response env = Ok d
          \<and> live_tweets d = Some liveTweets \<longrightarrow>
        st_tweets (loadTweets env streamingActive st) = sortedTweets env liveTweets)"
  using assms by (simp add: sorted_sortedTweets sortedTweets_nth js_sort_stable st_tweets_loadTweets)

theorem sortedTweets_descending_stable_witness:
  "sorted_wrt descending (sortedTweets (example_env Throws Throws)
     [example_alert ''a'' (Num (Fin (1 / 2))) None, example_alert ''b'' (Num (Fin (3 / 4))) None,
      example_alert ''c'' (Num (Fin (1 / 2))) None, example_alert ''d'' Undefined None])
   \<and> map tweet_id (sortedTweets (example_env Throws Throws)
     [example_alert ''a'' (Num (Fin (1 / 2))) None, example_alert ''b'' (Num (Fin (3 / 4))) None,
      example_alert ''c'' (Num (Fin (1 / 2))) None, example_alert ''d'' Undefined None])
     = [Some ''b'', Some ''a'', Some ''c'', Some ''d'']"
proof -
  let ?l = "[example_alert ''a'' (Num (Fin (1 / 2))) None, example_alert ''b'' (Num (Fin (3 / 4))) None,
      example_alert ''c'' (Num (Fin (1 / 2))) None, example_alert ''d'' Undefined None]"
  have h1: "?l \<noteq> []" by simp
  have h2: "\<forall>t \<in> set ?l. is_number (or_zero (priority_score t))"
    by (simp add: example_alert_def is_double_half is_double_three_quarters is_double_zero)
  have "sorted_wrt descending (sortedTweets (example_env Throws Throws) ?l)"
    using sortedTweets_descending_stable [OF h1 h2] by blast
  moreover have "map tweet_id (sortedTweets (example_env Throws Throws) ?l)
     = [Some ''b'', Some ''a'', Some ''c'', Some ''d'']"
    by (simp add: sortedTweets_def js_sort_def by_priority_def js_sub_def round64_def rnd_eval
        example_alert_def with_id_and_timestamp_def enumerate_eq_zip upt_rec)
  ultimately show ?thesis by blast
qed

subsection \<open>C5: the statistics of a cluster\<close>

text \<open>
  Claim C5 says that \<^verbatim>\<open>avgPriority\<close> is the arithmetic mean of the members' priority
  scores. It is the mean as double arithmetic computes it, which rounds after every
  addition and after the division. Three alerts of score \<open>0.1\<close> at one place form one
  cluster of count \<open>3\<close>; the mean of their scores is \<open>0.1\<close> again, a double, and
  \<^verbatim>\<open>avgPriority\<close> is the next double above it, \<open>0.10000000000000002\<close>.
\<close>

theorem avgPriority_not_the_mean:
  "length (heatmapData [example_alert ''a'' (Num (lit (1 / 10))) (Some (Fin 10, Fin 20)),
      example_alert ''b'' (Num (lit (1 / 10))) (Some (Fin 10, Fin 20)),
      example_alert ''c'' (Num (lit (1 / 10))) (Some (Fin 10, Fin 20))]) = 1
   \<and> scores (group_tweets (hd (heatmapData
       [example_alert ''a'' (Num (lit (1 / 10))) (Some (Fin 10, Fin 20)),
        example_alert ''b'' (Num (lit (1 / 10))) (Some (Fin 10, Fin 20)),
        example_alert ''c'' (Num (lit (1 / 10))) (Some (Fin 10, Fin 20))])))
     = [Fin (3602879701896397 / 36028797018963968),
        Fin (3602879701896397 / 36028797018963968),
        Fin (3602879701896397 / 36028797018963968)]
   \<and> is_double (3602879701896397 / 36028797018963968)
   \<and> count (hd (heatmapData
       [example_alert ''a'' (Num (lit (1 / 10))) (Some (Fin 10, Fin 20)),
        example_alert ''b'' (Num (lit (1 / 10))) (Some (Fin 10, Fin 20)),
        example_alert ''c'' (Num (lit (1 / 10))) (Some (Fin 10, Fin 20))])) = 3
   \<and> sum_list (map value_of (scores (group_tweets (hd (heatmapData
       [example_alert ''a'' (Num (lit (1 / 10))) (Some (Fin 10, Fin 20)),
        example_alert ''b'' (Num (lit (1 / 10))) (Some (Fin 10, Fin 20)),
        example_alert ''c'' (Num (lit (1 / 10))) (Some (Fin 10, Fin 20))]))))) / 3
     = 3602879701896397 / 36028797018963968
   \<and> avgPriority (hd (heatmapData
       [example_alert ''a'' (Num (lit (1 / 10))) (Some (Fin 10, Fin 20)),
        example_alert ''b'' (Num (lit (1 / 10))) (Some (Fin 10, Fin 20)),
        example_alert ''c'' (Num (lit (1 / 10))) (Some (Fin 10, Fin 20))]))
     = Fin (7205759403792795 / 72057594037927936)
   \<and> (7205759403792795 / 72057594037927936 :: rat) \<noteq> 3602879701896397 / 36028797018963968"
  by (simp add: heatmap_eval lit_boosts is_double_def rnd_eval)

text \<open>
  Claim C5, amended. Every cluster has at least one member; its members are the alerts
  of the input that carry the key of its first member, in input order; \<^verbatim>\<open>count\<close> is their
  number. \<^verbatim>\<open>avgPriority\<close> is \<^verbatim>\<open>totalPriority\<close> divided by the count, where \<^verbatim>\<open>totalPriority\<close>
  is the members' scores added up in input order from \<open>0\<close>, both in double arithmetic (a
  missing score is read as \<^verbatim>\<open>NaN\<close>, a \<^verbatim>\<open>null\<close> one as \<open>0\<close>). \<^verbatim>\<open>maxPriority\<close> is the maximum
  of the members' priority scores whenever these are read as numbers that are not
  negative, as the priority scores of the data model are; the code accumulates it with
  \<^verbatim>\<open>Math.max\<close> from \<open>0\<close>.
\<close>

theorem cluster_statistics:
  assumes "c \<in> set (heatmapData tweets)"
  shows "group_tweets c \<noteq> []
    \<and> group_tweets c = filter (\<lambda>t. tkey t = tkey (hd (group_tweets c))) tweets
    \<and> count c = length (group_tweets c)
    \<and> totalPriority c = foldl js_add (Fin 0) (scores (group_tweets c))
    \<and> avgPriority c = js_div_count (totalPriority c) (count c)
    \<and> maxPriority c = foldl js_max (Fin 0) (scores (group_tweets c))
    \<and> ((\<forall>t \<in> set (group_tweets c). \<exists>x. to_number (priority_score t) = Fin x \<and> 0 \<le> x) \<longrightarrow>
         maxPriority c = Fin (Max (value_of ` set (scores (group_tweets c)))))"
proof -
  from assms obtain k where k: "c = finish (summarize (members k tweets))"
    "members k tweets \<noteq> []"
    by (rule cluster_cases)
  let ?ms = "members k tweets"
  have gt: "group_tweets c = ?ms" using k by simp
  have m: "maxPriority c = Fin (Max (value_of ` set (scores ?ms)))"
    if h: "\<forall>t \<in> set ?ms. \<exists>x. to_number (priority_score t) = Fin x \<and> 0 \<le> x"
  proof -
    have "\<forall>x \<in> value_of ` set (scores ?ms). 0 \<le> x"
      using h by (auto simp: scores_def)
    moreover have "value_of ` set (scores ?ms) \<noteq> {}" using k(2) by (simp add: scores_def)
    ultimately have "Max (insert 0 (value_of ` set (scores ?ms))) = Max (value_of ` set (scores ?ms))"
      by (intro Max_insert_0) simp_all
    moreover have "\<forall>t \<in> set ?ms. \<exists>x. to_number (priority_score t) = Fin x" using h by blast
    then have "maxPriority c = Fin (Max (insert 0 (value_of ` set (scores ?ms))))"
      using k by (simp add: maxPriority_Fin)
    ultimately show ?thesis by simp
  qed
  show ?thesis
    unfolding gt using k members_as_filter [OF k(2)] m gt by simp
qed

theorem cluster_statistics_witness:
  "count (hd (heatmapData [example_alert ''a'' (Num (Fin (1 / 2))) (Some (Fin 10, Fin 20)),
      example_alert ''b'' Null (Some (Fin 10, Fin 20)),
      example_alert ''c'' (Num (Fin (1 / 4))) (Some (Fin 10, Fin 20))])) = 3
   \<and> maxPriority (hd (heatmapData [example_alert ''a'' (Num (Fin (1 / 2))) (Some (Fin 10, Fin 20)),
      example_alert ''b'' Null (Some (Fin 10, Fin 20)),
      example_alert ''c'' (Num (Fin (1 / 4))) (Some (Fin 10, Fin 20))])) = Fin (1 / 2)
   \<and> avgPriority (hd (heatmapData [example_alert ''a'' (Num (Fin (1 / 2))) (Some (Fin 10, Fin 20)),
      example_alert ''b'' Null (Some (Fin 10, Fin 20)),
      example_alert ''c'' (Num (Fin (1 / 4))) (Some (Fin 10, Fin 20))])) = Fin (1 / 4)"
proof -
  let ?l = "[example_alert ''a'' (Num (Fin (1 / 2))) (Some (Fin 10, Fin 20)),
      example_alert ''b'' Null (Some (Fin 10, Fin 20)),
      example_alert ''c'' (Num (Fin (1 / 4))) (Some (Fin 10, Fin 20))]"
  have ne: "heatmapData ?l \<noteq> []" by (simp add: heatmap_eval)
  have g: "group_tweets (hd (heatmapData ?l)) = ?l" by (simp add: heatmap_eval)
  have s: "scores ?l = [Fin (1 / 2), Fin 0, Fin (1 / 4)]"
    by (simp add: scores_def example_alert_def)
  have t: "foldl js_add (Fin 0) [Fin (1 / 2), Fin 0, Fin (1 / 4)] = Fin (3 / 4)"
    by (simp add: round64_def rnd_eval)
  have q: "js_div_count (Fin (3 / 4)) 3 = Fin (1 / 4)"
    by (simp add: round64_def rnd_eval)
  have a: "\<exists>x. Fin (1 / 2) = Fin x \<and> 0 \<le> x" by (rule exI [of _ "1 / 2"]) simp
  have b: "\<exists>x. Fin (1 / 4) = Fin x \<and> 0 \<le> x" by (rule exI [of _ "1 / 4"]) simp
  have n: "\<forall>t \<in> set ?l. \<exists>x. to_number (priority_score t) = Fin x \<and> 0 \<le> x"
    using a b by (simp add: example_alert_def)
  have "hd (heatmapData ?l) \<in> set (heatmapData ?l)"
    using ne by (rule hd_in_set)
  note cs = cluster_statistics [OF this, unfolded g]
  note rest = cs [THEN conjunct2, THEN conjunct2]
  have cnt: "count (hd (heatmapData ?l)) = 3"
    using rest [THEN conjunct1] by simp
  have tot: "totalPriority (hd (heatmapData ?l)) = Fin (3 / 4)"
    using rest [THEN conjunct2, THEN conjunct1] by (simp only: s t)
  have avg: "avgPriority (hd (heatmapData ?l)) = Fin (1 / 4)"
    using rest [THEN conjunct2, THEN conjunct2, THEN conjunct1] by (simp only: tot cnt q)
  have "maxPriority (hd (heatmapData ?l)) = Fin (Max (value_of ` set (scores ?l)))"
    using rest [THEN conjunct2, THEN conjunct2, THEN conjunct2, THEN conjunct2] n by (rule mp)
  then have mx: "maxPriority (hd (heatmapData ?l)) = Fin (1 / 2)"
    by (simp add: s)
  from cnt mx avg show ?thesis by (intro conjI)
qed

subsection \<open>C6: alerts without coordinates\<close>

text \<open>
  Claim C6. An alert with no resolved coordinate, at any position of any input list, is a
  member of no cluster, and the clusters are those of the list without it, so it adds to
  no count and to no statistic. In the feed rendered from the same list it has its card,
  at its position, showing its text and no location label.
\<close>

theorem no_coordinates_no_cluster:
  assumes "coordinates t = None"
  shows "(\<forall>c \<in> set (heatmapData (xs @ t # ys)). t \<notin> set (group_tweets c))
    \<and> heatmapData (xs @ t # ys) = heatmapData (xs @ ys)
    \<and> length (alert_feed now sel (xs @ t # ys)) = length (xs @ t # ys)
    \<and> alert_feed now sel (xs @ t # ys) ! length xs = alert_card now sel (length xs) t
    \<and> card_text (alert_feed now sel (xs @ t # ys) ! length xs) = tweet_text t
    \<and> card_location (alert_feed now sel (xs @ t # ys) ! length xs) = None"
proof -
  have "t \<notin> set (group_tweets c)" if "c \<in> set (heatmapData (xs @ t # ys))" for c
    using that assms by (auto simp: cluster_members in_members tkey_None)
  moreover have "alert_feed now sel (xs @ t # ys) ! length xs = alert_card now sel (length xs) t"
    by (simp add: alert_feed_nth)
  ultimately show ?thesis
    using assms by (simp add: heatmapData_drop alert_card_def)
qed

theorem no_coordinates_no_cluster_witness:
  "map (\<lambda>c. map tweet_text (group_tweets c))
     (heatmapData [example_alert ''first'' (Num (Fin (1 / 2))) (Some (Fin 10, Fin 20)),
        example_alert ''nowhere'' (Num (Fin (3 / 4))) None,
        example_alert ''second'' (Num (Fin (3 / 4))) (Some (Fin 10, Fin 20))])
     = [[''first'', ''second'']]
   \<and> map card_text
     (alert_feed 0 None [example_alert ''first'' (Num (Fin (1 / 2))) (Some (Fin 10, Fin 20)),
        example_alert ''nowhere'' (Num (Fin (3 / 4))) None,
        example_alert ''second'' (Num (Fin (3 / 4))) (Some (Fin 10, Fin 20))])
     = [''first'', ''nowhere'', ''second'']"
proof -
  let ?a = "example_alert ''first'' (Num (Fin (1 / 2))) (Some (Fin 10, Fin 20))"
  let ?t = "example_alert ''nowhere'' (Num (Fin (3 / 4))) None"
  let ?b = "example_alert ''second'' (Num (Fin (3 / 4))) (Some (Fin 10, Fin 20))"
  have h: "coordinates ?t = None" by (simp add: example_alert_def)
  have eq: "heatmapData ([?a] @ ?t # [?b]) = heatmapData ([?a] @ [?b])"
    using no_coordinates_no_cluster [OF h, of "[?a]" "[?b]"] by blast
  have "map (\<lambda>c. map tweet_text (group_tweets c)) (heatmapData ([?a] @ [?b]))
      = [[''first'', ''second'']]"
    by (simp add: heatmapData_eq first_keys_def members_def tkey_def key_of_def
        List.map_filter_def example_alert_def)
  with eq have "map (\<lambda>c. map tweet_text (group_tweets c)) (heatmapData [?a, ?t, ?b])
      = [[''first'', ''second'']]"
    by simp
  moreover have "map card_text (alert_feed 0 None [?a, ?t, ?b]) = [''first'', ''nowhere'', ''second'']"
    by (simp add: alert_feed_def alert_card_def enumerate_eq_zip upt_rec example_alert_def)
  ultimately show ?thesis by blast
qed

subsection \<open>C7: determinism\<close>

text \<open>
  Claim C7. The clustering operation is deterministic. Take the page in any two states it
  reaches, after the events \<open>run1\<close> and after the events \<open>run2\<close>, in both of which the
  state variable holds the list \<open>tweets\<close>. Rendering returns the same clusters in both,
  whatever was loaded and rendered before: the memo cell returns a kept value only for the
  array it was computed from, and that array still holds what it held then. The clusters
  are those of the list alone: one for each key in the order of first occurrence, with the
  alerts of that key in input order as members and the count, maximum and average
  priority accumulated over them. (The hook taken alone depends on more than the list: by
  \<open>useHeatmapData_same_array\<close>, handed the array of its last run again it returns the
  kept clusters whatever the array holds by then. The page never writes into an array it
  has rendered.)
\<close>

theorem useHeatmapData_deterministic:
  assumes "tweets_of (page_after run1) = tweets"
    and "tweets_of (page_after run2) = tweets"
  shows "fst (render (page_after run1)) = fst (render (page_after run2))
    \<and> fst (render (page_after run1)) =
        map (\<lambda>k. finish (summarize (members k tweets))) (first_keys tweets)"
  using assms render_result [of run1] render_result [of run2]
  by (simp add: heatmapData_eq)

theorem useHeatmapData_deterministic_witness:
  "tweets_of (page_after
      [Set_tweets [example_alert ''a'' (Num (Fin (1 / 2))) (Some (Fin 10, Fin 20))], Render])
     = [example_alert ''a'' (Num (Fin (1 / 2))) (Some (Fin 10, Fin 20))]
   \<and> tweets_of (page_after
      [Set_tweets [example_alert ''b'' (Num (Fin (3 / 4))) (Some (Fin 30, Fin 40))], Render,
       Set_tweets [example_alert ''a'' (Num (Fin (1 / 2))) (Some (Fin 10, Fin 20))]])
     = [example_alert ''a'' (Num (Fin (1 / 2))) (Some (Fin 10, Fin 20))]
   \<and> fst (render (page_after
      [Set_tweets [example_alert ''a'' (Num (Fin (1 / 2))) (Some (Fin 10, Fin 20))], Render]))
     = fst (render (page_after
      [Set_tweets [example_alert ''b'' (Num (Fin (3 / 4))) (Some (Fin 30, Fin 40))], Render,
       Set_tweets [example_alert ''a'' (Num (Fin (1 / 2))) (Some (Fin 10, Fin 20))]]))
   \<and> map count (fst (render (page_after
      [Set_tweets [example_alert ''a'' (Num (Fin (1 / 2))) (Some (Fin 10, Fin 20))], Render])))
     = [1]"
proof -
  let ?a = "[example_alert ''a'' (Num (Fin (1 / 2))) (Some (Fin 10, Fin 20))]"
  let ?b = "[example_alert ''b'' (Num (Fin (3 / 4))) (Some (Fin 30, Fin 40))]"
  have h1: "tweets_of (page_after [Set_tweets ?a, Render]) = ?a"
    by (simp add: page_after_def tweets_of_def setTweets_def render_def initial_page_def
        split_def Let_def)
  have h2: "tweets_of (page_after [Set_tweets ?b, Render, Set_tweets ?a]) = ?a"
    by (simp add: page_after_def tweets_of_def setTweets_def render_def initial_page_def
        split_def Let_def)
  have c: "map count (map (\<lambda>k. finish (summarize (members k ?a))) (first_keys ?a)) = [1]"
    by (simp add: first_keys_def members_def tkey_def key_of_def List.map_filter_def
        example_alert_def)
  note d = useHeatmapData_deterministic [OF h1 h2]
  have m: "map count (fst (render (page_after [Set_tweets ?a, Render]))) = [1]"
    unfolding conjunct2 [OF d] by (rule c)
  from h1 h2 conjunct1 [OF d] m show ?thesis by blast
qed

subsection \<open>C8: the urgency bonus\<close>

text \<open>
  Claim C8. The urgency bonus is one fixed amount. For every configuration and every text
  that contains a term of the urgency-keyword set, the urgency term of the score is the
  configured bonus: the same for every other such text, whichever terms it contains and
  however many. It enters the weighted sum once: against a text with no urgency term
  that agrees on the disaster keywords, the weighted sum is larger by exactly the bonus.
\<close>

theorem urgency_bonus_fixed:
  assumes "keyword \<in> set (urgency_keywords cfg)" and "contains_term txt keyword"
  shows "urgency_term cfg txt = urgency_bonus cfg
    \<and> (\<forall>other txt2. other \<in> set (urgency_keywords cfg) \<and> contains_term txt2 other \<longrightarrow>
          urgency_term cfg txt2 = urgency_term cfg txt)
    \<and> weighted_sum cfg txt c h g =
        confidence_weight cfg * c + urgency_bonus cfg + location_term cfg h g
          + keyword_term cfg txt
    \<and> (\<not> contains_any calm (urgency_keywords cfg)
          \<and> contains_any calm (disaster_keywords cfg) = contains_any txt (disaster_keywords cfg) \<longrightarrow>
        weighted_sum cfg txt c h g = weighted_sum cfg calm c h g + urgency_bonus cfg)"
proof -
  have any: "contains_any t (urgency_keywords cfg)"
    if "k \<in> set (urgency_keywords cfg)" "contains_term t k" for t k
    using that by (auto simp: contains_any_def list_ex_iff)
  have u: "urgency_term cfg txt = urgency_bonus cfg"
    using any [OF assms] by (simp add: urgency_term_def)
  have "urgency_term cfg txt2 = urgency_term cfg txt"
    if "other \<in> set (urgency_keywords cfg) \<and> contains_term txt2 other" for other txt2
    using that any [of other txt2] u by (simp add: urgency_term_def)
  then show ?thesis
    using u by (simp add: weighted_sum_def urgency_term_def keyword_term_def)
qed

theorem urgency_bonus_fixed_witness:
  "urgency_term documented_config ''please help'' = 3 / 10
   \<and> urgency_term documented_config ''urgent emergency, help'' = 3 / 10
   \<and> weighted_sum documented_config ''please help'' (1 / 2) False 0
       = weighted_sum documented_config ''quiet evening'' (1 / 2) False 0 + 3 / 10"
proof -
  have k: "''help'' \<in> set (urgency_keywords documented_config)"
    by (simp add: documented_config_def documented_urgency_keywords_def)
  have t1: "contains_term ''please help'' ''help''"
    by (simp add: contains_term_def upt_rec)
  have t2: "contains_term ''urgent emergency, help'' ''help''"
    by (simp add: contains_term_def upt_rec)
  have b: "urgency_bonus documented_config = 3 / 10"
    by (simp add: documented_config_def)
  have calm: "\<not> contains_any ''quiet evening'' (urgency_keywords documented_config)
      \<and> contains_any ''quiet evening'' (disaster_keywords documented_config)
          = contains_any ''please help'' (disaster_keywords documented_config)"
    by (simp add: contains_any_def contains_term_def documented_config_def
        documented_urgency_keywords_def upt_rec)
  note f1 = urgency_bonus_fixed [OF k t1, of "1 / 2" False 0 "''quiet evening''"]
  have u1: "urgency_term documented_config ''please help'' = 3 / 10"
    using conjunct1 [OF f1] b by simp
  have "urgency_term documented_config ''urgent emergency, help''
      = urgency_term documented_config ''please help''"
    using f1 [THEN conjunct2, THEN conjunct1, THEN spec, THEN spec, THEN mp, OF conjI [OF k t2]] .
  with u1 have u2: "urgency_term documented_config ''urgent emergency, help'' = 3 / 10"
    by simp
  have "weighted_sum documented_config ''please help'' (1 / 2) False 0
      = weighted_sum documented_config ''quiet evening'' (1 / 2) False 0 + 3 / 10"
    using conjunct2 [OF conjunct2 [OF conjunct2 [OF f1]]] calm b by simp
  with u1 u2 show ?thesis by blast
qed

subsection \<open>C9: bounds on the statistics\<close>

text \<open>
  Claim C9 says that \<^verbatim>\<open>avgPriority\<close> never exceeds \<^verbatim>\<open>maxPriority\<close> when all scores lie in
  \<open>[0, 1]\<close>. In double arithmetic it can: three alerts of score \<open>0.1\<close> at one place give
  the total \<open>0.30000000000000004\<close> and the average \<open>0.10000000000000002\<close>, above the
  maximum \<open>0.1\<close>.
\<close>

theorem avgPriority_above_maxPriority:
  "map priority_score [example_alert ''a'' (Num (lit (1 / 10))) (Some (Fin 10, Fin 20)),
      example_alert ''b'' (Num (lit (1 / 10))) (Some (Fin 10, Fin 20)),
      example_alert ''c'' (Num (lit (1 / 10))) (Some (Fin 10, Fin 20))]
     = [Num (Fin (3602879701896397 / 36028797018963968)),
        Num (Fin (3602879701896397 / 36028797018963968)),
        Num (Fin (3602879701896397 / 36028797018963968))]
   \<and> is_double (3602879701896397 / 36028797018963968)
   \<and> maxPriority (hd (heatmapData [example_alert ''a'' (Num (lit (1 / 10))) (Some (Fin 10, Fin 20)),
      example_alert ''b'' (Num (lit (1 / 10))) (Some (Fin 10, Fin 20)),
      example_alert ''c'' (Num (lit (1 / 10))) (Some (Fin 10, Fin 20))]))
     = Fin (3602879701896397 / 36028797018963968)
   \<and> avgPriority (hd (heatmapData [example_alert ''a'' (Num (lit (1 / 10))) (Some (Fin 10, Fin 20)),
      example_alert ''b'' (Num (lit (1 / 10))) (Some (Fin 10, Fin 20)),
      example_alert ''c'' (Num (lit (1 / 10))) (Some (Fin 10, Fin 20))]))
     = Fin (7205759403792795 / 72057594037927936)
   \<and> \<not> js_le (Fin (7205759403792795 / 72057594037927936))
         (Fin (3602879701896397 / 36028797018963968))"
  by (simp add: heatmap_eval lit_boosts is_double_def rnd_eval)

text \<open>
  Claim C9, amended. For every input list shorter than \<open>2^53\<close> (as every array is) whose
  priority scores all lie in \<open>[0, 1]\<close>, every cluster has \<open>count \<ge> 1\<close>, \<open>count\<close> equal to
  the length of its member list, and \<^verbatim>\<open>avgPriority\<close> and \<^verbatim>\<open>maxPriority\<close> finite and in
  \<open>[0, 1]\<close>. The exact mean of the members' scores is at most \<^verbatim>\<open>maxPriority\<close>; the
  computed \<^verbatim>\<open>avgPriority\<close>, which rounds twice, need not be.
\<close>

theorem cluster_invariants:
  assumes "\<forall>t \<in> set tweets. \<exists>x. priority_score t = Num (Fin x) \<and> 0 \<le> x \<and> x \<le> 1"
    and "length tweets < 2 ^ 53"
    and "c \<in> set (heatmapData tweets)"
  shows "1 \<le> count c \<and> count c = length (group_tweets c)
    \<and> (\<exists>a m. avgPriority c = Fin a \<and> maxPriority c = Fin m
          \<and> 0 \<le> a \<and> a \<le> 1 \<and> 0 \<le> m \<and> m \<le> 1
          \<and> sum_list (map value_of (scores (group_tweets c))) / of_nat (count c) \<le> m)"
proof -
  from assms(3) obtain k where k: "c = finish (summarize (members k tweets))"
    "members k tweets \<noteq> []"
    by (rule cluster_cases)
  let ?ms = "members k tweets"
  let ?xs = "map value_of (scores ?ms)"
  let ?n = "length ?ms"
  have n: "0 < ?n" using k(2) by simp
  have nx: "length ?xs = ?n" by (simp add: scores_def)
  have "\<forall>t \<in> set ?ms. \<exists>x. priority_score t = Num (Fin x) \<and> 0 \<le> x \<and> x \<le> 1"
    using assms(1) set_members_subset [of k tweets] by blast
  then have sc: "scores ?ms = map Fin ?xs" and xs: "\<forall>x \<in> set ?xs. 0 \<le> x \<and> x \<le> 1"
    using unit_scores [of ?ms] by simp_all
  have "0 + length ?xs < (2::nat) ^ 53"
    using length_members_le [of k tweets] assms(2) nx by simp
  with xs obtain s where s: "foldl js_add (Fin 0) (map Fin ?xs) = Fin s" "0 \<le> s"
    "s \<le> of_nat (0 + length ?xs)"
    using foldl_js_add_bounded [of ?xs 0 0] by auto
  from xs obtain m where m: "foldl js_max (Fin 0) (map Fin ?xs) = Fin m" "0 \<le> m" "m \<le> 1"
    "\<forall>x \<in> set ?xs. x \<le> m"
    using foldl_js_max_bounded [of ?xs] by auto
  have q: "0 \<le> s / of_nat ?n" "s / of_nat ?n \<le> of_nat 1"
    using s(2,3) n nx by (simp_all add: field_simps)
  have a: "round64 (s / of_nat ?n) = Fin (rnd (s / of_nat ?n))" "0 \<le> rnd (s / of_nat ?n)"
    "rnd (s / of_nat ?n) \<le> 1"
    using round64_bounded [OF q] by simp_all
  have avg: "avgPriority c = Fin (rnd (s / of_nat ?n))"
    using k(1) sc s(1) a(1) n by simp
  have mx: "maxPriority c = Fin m" using k(1) sc m(1) by simp
  have "sum_list ?xs \<le> of_nat (length ?xs) * m" using m(4) by (rule sum_list_le_max)
  then have mean: "sum_list ?xs / of_nat ?n \<le> m"
    using n nx by (simp add: field_simps)
  have "count c = ?n" "group_tweets c = ?ms" using k(1) by simp_all
  moreover have "1 \<le> ?n" using n by linarith
  ultimately show ?thesis using avg mx a(2,3) m(2,3) mean by simp
qed

theorem cluster_invariants_witness:
  "1 \<le> count (hd (heatmapData [example_alert ''a'' (Num (Fin (1 / 2))) (Some (Fin 10, Fin 20)),
      example_alert ''b'' (Num (Fin (3 / 4))) (Some (Fin 10, Fin 20))]))
   \<and> maxPriority (hd (heatmapData [example_alert ''a'' (Num (Fin (1 / 2))) (Some (Fin 10, Fin 20)),
      example_alert ''b'' (Num (Fin (3 / 4))) (Some (Fin 10, Fin 20))])) = Fin (3 / 4)
   \<and> (\<exists>a. avgPriority (hd (heatmapData [example_alert ''a'' (Num (Fin (1 / 2))) (Some (Fin 10, Fin 20)),
      example_alert ''b'' (Num (Fin (3 / 4))) (Some (Fin 10, Fin 20))])) = Fin a \<and> 0 \<le> a \<and> a \<le> 1)"
proof -
  let ?l = "[example_alert ''a'' (Num (Fin (1 / 2))) (Some (Fin 10, Fin 20)),
      example_alert ''b'' (Num (Fin (3 / 4))) (Some (Fin 10, Fin 20))]"
  have a: "\<exists>x. Num (Fin (1 / 2)) = Num (Fin x) \<and> 0 \<le> x \<and> x \<le> 1"
    by (rule exI [of _ "1 / 2"]) simp
  have b: "\<exists>x. Num (Fin (3 / 4)) = Num (Fin x) \<and> 0 \<le> x \<and> x \<le> 1"
    by (rule exI [of _ "3 / 4"]) simp
  have h1: "\<forall>t \<in> set ?l. \<exists>x. priority_score t = Num (Fin x) \<and> 0 \<le> x \<and> x \<le> 1"
    using a b by (simp add: example_alert_def)
  have h2: "length ?l < 2 ^ 53" by simp
  have h3: "hd (heatmapData ?l) \<in> set (heatmapData ?l)"
    using two_alerts_eval(1) by (rule hd_in_set)
  show ?thesis
    using cluster_invariants [OF h1 h2 h3] two_alerts_eval(4) by auto
qed

subsection \<open>C10: the displayed list is never empty\<close>

text \<open>
  Claim C10. After every run of \<^verbatim>\<open>loadTweets\<close>, whatever the three requests come to, the
  displayed alert list is not empty and the loading flag is off. When the health check
  fails (the request throws or the response is not ok), when the live fetch fails the
  same way, or when the live fetch returns no item (no \<^verbatim>\<open>tweets\<close> field, or an empty
  array), the displayed list is the list of \<^verbatim>\<open>getMockTweets\<close>, which has five entries,
  each with \<^verbatim>\<open>simulation: true\<close>.
\<close>

theorem loadTweets_never_empty:
  "st_tweets (loadTweets env streamingActive st) \<noteq> []
   \<and> (health_response env = Throws \<or> (\<exists>status. health_response env = Not_ok status)
        \<longrightarrow> st_tweets (loadTweets env streamingActive st) = getMockTweets (clock env))
   \<and> (live_response env = Throws \<or> (\<exists>status. live_response env = Not_ok status)
        \<longrightarrow> st_tweets (loadTweets env streamingActive st) = getMockTweets (clock env))
   \<and> ((\<exists>d. live_response env = Ok d \<and> (live_tweets d = None \<or> live_tweets d = Some []))
        \<longrightarrow> st_tweets (loadTweets env streamingActive st) = getMockTweets (clock env))
   \<and> length (getMockTweets (clock env)) = 5
   \<and> (\<forall>t \<in> set (getMockTweets (clock env)). simulation t)
   \<and> \<not> st_loading (loadTweets env streamingActive st)"
proof -
  have "st_tweets (loadTweets env streamingActive st) \<noteq> []"
    by (simp add: st_tweets_loadTweets getMockTweets_not_Nil sortedTweets_not_Nil
        split: response.splits option.splits)
  moreover have "\<not> st_loading (loadTweets env streamingActive st)"
    by (simp add: loadTweets_def Let_def split: prod.splits)
  ultimately show ?thesis
    by (auto simp: st_tweets_loadTweets length_getMockTweets simulation_getMockTweets
        split: response.splits)
qed

theorem loadTweets_never_empty_witness:
  "st_tweets (loadTweets (example_env (Not_ok 503) Throws) False example_state)
     = getMockTweets 1000000
   \<and> st_tweets (loadTweets (example_env (Ok \<lparr>health_streaming_active = None\<rparr>) (Not_ok 500))
        False example_state) = getMockTweets 1000000
   \<and> st_tweets (loadTweets (example_env (Ok \<lparr>health_streaming_active = None\<rparr>)
        (Ok \<lparr>streaming_active = Some True, live_tweets = Some []\<rparr>)) False example_state)
     = getMockTweets 1000000
   \<and> map simulation (getMockTweets 1000000) = [True, True, True, True, True]"
proof -
  have "st_tweets (loadTweets (example_env (Not_ok 503) Throws) False example_state)
     = getMockTweets 1000000"
    using loadTweets_never_empty [of "example_env (Not_ok 503) Throws" False example_state]
    by (simp add: example_env_def)
  moreover have "st_tweets (loadTweets (example_env (Ok \<lparr>health_streaming_active = None\<rparr>)
      (Not_ok 500)) False example_state) = getMockTweets 1000000"
    using loadTweets_never_empty [of "example_env (Ok \<lparr>health_streaming_active = None\<rparr>)
      (Not_ok 500)" False example_state]
    by (simp add: example_env_def)
  moreover have "st_tweets (loadTweets (example_env (Ok \<lparr>health_streaming_active = None\<rparr>)
        (Ok \<lparr>streaming_active = Some True, live_tweets = Some []\<rparr>)) False example_state)
     = getMockTweets 1000000"
    using loadTweets_never_empty [of "example_env (Ok \<lparr>health_streaming_active = None\<rparr>)
        (Ok \<lparr>streaming_active = Some True, live_tweets = Some []\<rparr>)" False example_state]
    by (simp add: example_env_def)
  moreover have "map simulation (getMockTweets 1000000) = [True, True, True, True, True]"
    by (simp add: getMockTweets_def)
  ultimately show ?thesis by blast
qed

end
